theory Spec2Isabelle
  imports Complex_Main "HOL-Library.Multiset"
begin

section \<open>Most wanted OTUs: a model of \<^verbatim>\<open>most_wanted_otus.py\<close>\<close>

text \<open>
  The module is Python 2 code. Its functions are modelled as HOL functions that return
  \<open>py_error + 'a\<close>: \<open>Inl\<close> is a raised exception, \<open>Inr\<close> the returned value. Python
  integers are \<open>int\<close>. Python floats are modelled by real numbers with exact
  arithmetic: rounding, infinities, NaN and the sign of zero are outside the model.
  What the module takes from outside is a parameter of the model: the builtin
  \<^verbatim>\<open>float\<close> and \<^verbatim>\<open>str\<close> of a float, the palette of \<^verbatim>\<open>qiime.colors\<close>, and the
  commands and parsers that the driver calls.
\<close>

subsection \<open>Exceptions\<close>

datatype py_error =
    ValueError string
  | KeyError string
  | IndexError
  | ZeroDivisionError
  | StopIteration
  | UnknownID string
  | OSError
  | WorkflowError string

subsection \<open>Python's string and list primitives\<close>

text \<open>The characters that \<^verbatim>\<open>str.strip()\<close> removes: space, tab, newline, carriage
  return, vertical tab and form feed.\<close>

definition is_space :: "char \<Rightarrow> bool" where
  "is_space c \<longleftrightarrow>
     c = CHR '' '' \<or> c = CHR 0x09 \<or> c = CHR 0x0A \<or> c = CHR 0x0D \<or> c = CHR 0x0B \<or> c = CHR 0x0C"

definition strip :: "string \<Rightarrow> string" where
  "strip s = rev (dropWhile is_space (rev (dropWhile is_space s)))"

text \<open>\<^verbatim>\<open>s.startswith(p)\<close>.\<close>

definition startswith :: "string \<Rightarrow> string \<Rightarrow> bool" where
  "startswith s p \<longleftrightarrow> take (length p) s = p"

text \<open>\<^verbatim>\<open>s.split(c)\<close> for a separator of one character: empty fields are kept,
  and the empty string gives one empty field.\<close>

fun split_sep :: "char \<Rightarrow> string \<Rightarrow> string list" where
  "split_sep c [] = [[]]"
| "split_sep c (x # xs) =
     (if x = c then [] # split_sep c xs
      else (case split_sep c xs of
              [] \<Rightarrow> [[x]]
            | f # fs \<Rightarrow> (x # f) # fs))"

text \<open>\<^verbatim>\<open>xs[:n]\<close>: a negative bound counts from the end.\<close>

definition slice_to :: "int \<Rightarrow> 'a list \<Rightarrow> 'a list" where
  "slice_to n xs =
     (if 0 \<le> n then take (nat n) xs else take (length xs - nat (- n)) xs)"

text \<open>\<^verbatim>\<open>a, b, c = fields\<close>: unpacking into three names raises \<^verbatim>\<open>ValueError\<close>
  unless there are exactly three values. The list unpacked here is a slice \<^verbatim>\<open>[:3]\<close>
  of the result of \<^verbatim>\<open>split\<close>, so it has one, two or three elements.\<close>

fun unpack3 :: "'a list \<Rightarrow> py_error + ('a \<times> 'a \<times> 'a)" where
  "unpack3 [a, b, c] = Inr (a, b, c)"
| "unpack3 [a] = Inl (ValueError ''need more than 1 value to unpack'')"
| "unpack3 [a, b] = Inl (ValueError ''need more than 2 values to unpack'')"
| "unpack3 [] = Inl (ValueError ''need more than 0 values to unpack'')"
| "unpack3 (a # b # c # d # ds) = Inl (ValueError ''too many values to unpack'')"

text \<open>\<^verbatim>\<open>sep.join(xs)\<close>.\<close>

fun join_str :: "string \<Rightarrow> string list \<Rightarrow> string" where
  "join_str sep [] = []"
| "join_str sep [x] = x"
| "join_str sep (x # y # ys) = x @ sep @ join_str sep (y # ys)"

text \<open>\<^verbatim>\<open>[seq[i:i+n] for i in range(0, len(seq), n)]\<close>, for a positive \<open>n\<close>.\<close>

fun chunks :: "nat \<Rightarrow> 'a list \<Rightarrow> 'a list list" where
  "chunks n xs = (if xs = [] \<or> n = 0 then [] else take n xs # chunks n (drop n xs))"

declare chunks.simps [simp del]

text \<open>\<^verbatim>\<open>xs[i]\<close> for an index that is not negative.\<close>

definition item :: "'a list \<Rightarrow> nat \<Rightarrow> py_error + 'a" where
  "item xs i = (if i < length xs then Inr (xs ! i) else Inl IndexError)"

text \<open>\<^verbatim>\<open>sorted(xs, key=f, reverse=True)\<close>: descending by key, and elements with equal
  keys keep the order of the input (Python reverses the list, sorts it stably and
  reverses the result).\<close>

definition sorted_reverse :: "('a \<Rightarrow> 'k::linorder) \<Rightarrow> 'a list \<Rightarrow> 'a list" where
  "sorted_reverse f xs = rev (sort_key f (rev xs))"

text \<open>\<^verbatim>\<open>'%d' % n\<close> for a number that is not negative.\<close>

definition digit_char :: "nat \<Rightarrow> char" where
  "digit_char d = ''0123456789'' ! d"

fun str_nat :: "nat \<Rightarrow> string" where
  "str_nat n = (if n < 10 then [digit_char n] else str_nat (n div 10) @ [digit_char (n mod 10)])"

declare str_nat.simps [simp del]

text \<open>\<^verbatim>\<open>'%.2f' % x\<close>: the value rounded to two decimals, a tie going to the even
  digit, written with its sign, its integer part and two decimals.\<close>

definition round_half_even :: "real \<Rightarrow> int" where
  "round_half_even x =
     (let f = \<lfloor>x\<rfloor>; d = x - of_int f in
      if d < 1 / 2 then f
      else if 1 / 2 < d then f + 1
      else if even f then f else f + 1)"

definition format_2f :: "real \<Rightarrow> string" where
  "format_2f x =
     (let k = nat (round_half_even (\<bar>x\<bar> * 100)) in
      (if x < 0 then ''-'' else '''') @ str_nat (k div 100) @ ''.'' @
      [digit_char (k mod 100 div 10), digit_char (k mod 10)])"

text \<open>\<^verbatim>\<open>a / b\<close> on integers under \<^verbatim>\<open>from __future__ import division\<close>.\<close>

definition true_div :: "int \<Rightarrow> int \<Rightarrow> py_error + real" where
  "true_div a b = (if b = 0 then Inl ZeroDivisionError else Inr (of_int a / of_int b))"

subsection \<open>\<^verbatim>\<open>os.path\<close> on POSIX\<close>

definition path_join :: "string \<Rightarrow> string \<Rightarrow> string" where
  "path_join a b =
     (if startswith b ''/'' then b
      else if a = [] \<or> last a = CHR ''/'' then a @ b
      else a @ ''/'' @ b)"

definition basename :: "string \<Rightarrow> string" where
  "basename p = rev (takeWhile (\<lambda>c. c \<noteq> CHR ''/'') (rev p))"

fun normpath_comps :: "bool \<Rightarrow> string list \<Rightarrow> string list \<Rightarrow> string list" where
  "normpath_comps initial_slashes [] new_comps = new_comps"
| "normpath_comps initial_slashes (c # comps) new_comps =
     (if c = [] \<or> c = ''.'' then normpath_comps initial_slashes comps new_comps
      else if c \<noteq> ''..'' \<or> (\<not> initial_slashes \<and> new_comps = []) \<or>
              (new_comps \<noteq> [] \<and> last new_comps = ''..'')
      then normpath_comps initial_slashes comps (new_comps @ [c])
      else if new_comps \<noteq> [] then normpath_comps initial_slashes comps (butlast new_comps)
      else normpath_comps initial_slashes comps new_comps)"

definition normpath :: "string \<Rightarrow> string" where
  "normpath path =
     (if path = [] then ''.''
      else
        (let initial_slashes =
               (if startswith path ''/'' then
                  (if startswith path ''//'' \<and> \<not> startswith path ''///'' then 2 else 1)
                else (0 :: nat));
             comps = normpath_comps (initial_slashes \<noteq> 0) (split_sep (CHR ''/'') path) [];
             path' = replicate initial_slashes (CHR ''/'') @ join_str ''/'' comps
         in if path' = [] then ''.'' else path'))"

subsection \<open>The top-N selector: \<^verbatim>\<open>_get_top_n_blast_results\<close>\<close>

text \<open>A search hit: query identifier, subject identifier, percent identity.\<close>

type_synonym blast_hit = "string \<times> string \<times> real"

definition otu_id_of :: "blast_hit \<Rightarrow> string" where
  "otu_id_of h = fst h"

text \<open>\<^verbatim>\<open>itemgetter(2)\<close>.\<close>

definition percent_identity_of :: "blast_hit \<Rightarrow> real" where
  "percent_identity_of h = snd (snd h)"

text \<open>
  The body of the loop up to the conversion of the third field (lines 244 to 247).
  \<open>None\<close> is a line that is skipped: empty after \<^verbatim>\<open>strip()\<close>, or starting with
  \<^verbatim>\<open>#\<close>. Python's builtin \<^verbatim>\<open>float\<close> is the parameter \<open>to_float\<close>; it returns
  \<open>Inl\<close> where \<^verbatim>\<open>float\<close> raises.
\<close>

definition parse_blast_line ::
  "(string \<Rightarrow> py_error + real) \<Rightarrow> string \<Rightarrow> py_error + blast_hit option" where
  "parse_blast_line to_float line0 =
     (let line = strip line0 in
      if line \<noteq> [] \<and> \<not> startswith line ''#'' then
        (case unpack3 (slice_to 3 (split_sep (CHR 0x09) line)) of
           Inl e \<Rightarrow> Inl e
         | Inr (otu_id, subject_id, percent_identity) \<Rightarrow>
             (case to_float percent_identity of
                Inl e \<Rightarrow> Inl e
              | Inr pid \<Rightarrow> Inr (Some (otu_id, subject_id, pid))))
      else Inr None)"

text \<open>
  The loop over the lines, with the two variables it updates: the list \<open>result\<close> and
  the dictionary \<open>seen_otus\<close>.
\<close>

fun top_n_loop ::
  "(string \<Rightarrow> py_error + real) \<Rightarrow> real \<Rightarrow> string list \<Rightarrow>
   blast_hit list \<Rightarrow> (string \<rightharpoonup> bool) \<Rightarrow> py_error + blast_hit list" where
  "top_n_loop to_float max_nt_similarity [] result seen_otus = Inr result"
| "top_n_loop to_float max_nt_similarity (line # rest) result seen_otus =
     (case parse_blast_line to_float line of
        Inl e \<Rightarrow> Inl e
      | Inr None \<Rightarrow> top_n_loop to_float max_nt_similarity rest result seen_otus
      | Inr (Some (otu_id, subject_id, percent_identity)) \<Rightarrow>
          if percent_identity / 100 \<le> max_nt_similarity \<and> seen_otus otu_id = None
          then top_n_loop to_float max_nt_similarity rest
                 (result @ [(otu_id, subject_id, percent_identity)])
                 (seen_otus(otu_id \<mapsto> True))
          else top_n_loop to_float max_nt_similarity rest result seen_otus)"

text \<open>\<^verbatim>\<open>sorted(result, key=itemgetter(2))[:top_n]\<close>; Python's sort is stable, and
  so is \<open>sort_key\<close>.\<close>

definition get_top_n_blast_results ::
  "(string \<Rightarrow> py_error + real) \<Rightarrow> string list \<Rightarrow> int \<Rightarrow> real \<Rightarrow> py_error + blast_hit list" where
  "get_top_n_blast_results to_float blast_results_f top_n max_nt_similarity =
     (case top_n_loop to_float max_nt_similarity blast_results_f [] Map.empty of
        Inl e \<Rightarrow> Inl e
      | Inr result \<Rightarrow> Inr (slice_to top_n (sort_key percent_identity_of result)))"

subsection \<open>The abundance summarizer: \<^verbatim>\<open>_format_pie_chart_data\<close>\<close>

text \<open>
  \<^verbatim>\<open>colors = cycle(items)\<close> and \<^verbatim>\<open>colors.next()\<close>. The state of the iterator is the
  number \<open>k\<close> of items it has given; \<^verbatim>\<open>next\<close> returns the item and the new state,
  and raises \<^verbatim>\<open>StopIteration\<close> on an empty list.
\<close>

definition cycle_next :: "'c list \<Rightarrow> nat \<Rightarrow> py_error + ('c \<times> nat)" where
  "cycle_next items k =
     (if items = [] then Inl StopIteration
      else Inr (items ! (k mod length items), Suc k))"

text \<open>
  Line 363, \<^verbatim>\<open>[(val, label, colors.next()) for val, label in zip(data, labels)]\<close>:
  the comprehension, with the state of the iterator passed along.
\<close>

fun zip_colors ::
  "string list \<Rightarrow> nat \<Rightarrow> (int \<times> string) list \<Rightarrow> py_error + (int \<times> string \<times> string) list" where
  "zip_colors palette k [] = Inr []"
| "zip_colors palette k ((val, label) # rest) =
     (case cycle_next palette k of
        Inl e \<Rightarrow> Inl e
      | Inr (color, k') \<Rightarrow>
          (case zip_colors palette k' rest of
             Inl e \<Rightarrow> Inl e
           | Inr result \<Rightarrow> Inr ((val, label, color) # result)))"

text \<open>Line 366, \<^verbatim>\<open>[(val / total, label, color) for val, label, color in result]\<close>: no
  division takes place when \<open>result\<close> is empty.\<close>

fun normalize_counts ::
  "int \<Rightarrow> (int \<times> string \<times> string) list \<Rightarrow> py_error + (real \<times> string \<times> string) list" where
  "normalize_counts total_count [] = Inr []"
| "normalize_counts total_count ((val, label, color) # rest) =
     (case true_div val total_count of
        Inl e \<Rightarrow> Inl e
      | Inr fraction \<Rightarrow>
          (case normalize_counts total_count rest of
             Inl e \<Rightarrow> Inl e
           | Inr result \<Rightarrow> Inr ((fraction, label, color) # result)))"

text \<open>
  The function. The counts are Python integers. The list
  \<^verbatim>\<open>[data_colors[color].toHex() for color in data_color_order]\<close> comes from
  \<^verbatim>\<open>qiime.colors\<close>, which is not part of the module: it is the parameter \<open>palette\<close>.
  The iterator is created inside the function, so each call starts it at \<open>0\<close>.
\<close>

definition format_pie_chart_data ::
  "string list \<Rightarrow> string list \<Rightarrow> int list \<Rightarrow> int \<Rightarrow>
   py_error + (real list \<times> string list \<times> string list)" where
  "format_pie_chart_data palette labels data max_count =
     (if length labels \<noteq> length data then
        Inl (ValueError ''The number of labels does not match the number of counts.'')
      else
        (case zip_colors palette 0 (zip data labels) of
           Inl e \<Rightarrow> Inl e
         | Inr result0 \<Rightarrow>
             (let result1 = slice_to max_count (sorted_reverse fst result0);
                  total_count = sum_list (map fst result1)
              in (case normalize_counts total_count result1 of
                    Inl e \<Rightarrow> Inl e
                  | Inr result \<Rightarrow>
                      Inr (map fst result,
                           map (\<lambda>e. fst (snd e) @ '' ('' @ format_2f (fst e * 100) @ ''%)'') result,
                           map (\<lambda>e. snd (snd e)) result)))))"

subsection \<open>The report assembler: \<^verbatim>\<open>_format_top_n_results_table\<close>\<close>

text \<open>
  The OTU table of \<^verbatim>\<open>biom\<close>, as far as the assembler reads it: the sample
  identifiers, the counts of an observation (\<^verbatim>\<open>observationData\<close>) and its taxonomy
  (\<^verbatim>\<open>ObservationMetadata[getObservationIndex(otu_id)]['taxonomy']\<close>, as the text that
  \<^verbatim>\<open>'%s'\<close> prints). \<open>None\<close> is an identifier the table does not have, for which
  \<^verbatim>\<open>biom\<close> raises \<^verbatim>\<open>UnknownID\<close>.
\<close>

record otu_table =
  SampleIds :: "string list"
  observationData :: "string \<rightharpoonup> int list"
  taxonomy :: "string \<rightharpoonup> string"

text \<open>\<^verbatim>\<open>_format_legend_html\<close>. The three sequences of \<open>plot_data\<close> have equal length.\<close>

definition format_legend_html :: "real list \<times> string list \<times> string list \<Rightarrow> string" where
  \<open>format_legend_html plot_data =
     ''<ul class="most_wanted_otus_legend">'' @
     concat (map (\<lambda>(val, label, color).
                ''<li><div class="key" style="background-color:'' @ color @ ''"></div>'' @
                label @ ''</li>'')
             (zip (fst plot_data) (zip (fst (snd plot_data)) (snd (snd plot_data))))) @
     ''</ul>''\<close>

text \<open>The header lines, lines 274 to 284.\<close>

definition tsv_header :: "bool \<Rightarrow> string" where
  "tsv_header suppress_taxonomic_output =
     ''#'' @ [CHR 0x09] @ ''OTU ID'' @ [CHR 0x09] @ ''Sequence'' @ [CHR 0x09] @
     (if \<not> suppress_taxonomic_output then ''Greengenes taxonomy'' @ [CHR 0x09] else []) @
     ''NCBI nt closest match'' @ [CHR 0x09] @ ''NCBI nt % identity'' @ [CHR 0x0A]"

definition html_table_header :: "string \<Rightarrow> bool \<Rightarrow> string" where
  \<open>html_table_header mapping_category suppress_taxonomic_output =
     ''<table id="most_wanted_otus_table" border="border"><tr><th>#</th><th>OTU</th>'' @
     (if \<not> suppress_taxonomic_output then ''<th>Greengenes taxonomy</th>'' else []) @
     ''<th>NCBI nt closest match</th><th>Abundance by '' @ mapping_category @ ''</th></tr>''\<close>

text \<open>
  What one pass of the loop appends to \<open>mw_fasta_lines\<close> (line 290), to \<open>tsv_lines\<close>
  (lines 335 to 338) and to \<open>html_lines\<close> (lines 340 to 353). \<open>pid\<close> is the text that
  \<^verbatim>\<open>'%s'\<close> prints for the percent identity.
\<close>

definition fasta_record :: "string \<Rightarrow> string \<Rightarrow> string" where
  "fasta_record otu_id seq = ''>'' @ otu_id @ [CHR 0x0A] @ seq @ [CHR 0x0A]"

definition tsv_row ::
  "nat \<Rightarrow> string \<Rightarrow> string \<Rightarrow> bool \<Rightarrow> string \<Rightarrow> string \<Rightarrow> string \<Rightarrow> string" where
  "tsv_row mw_num otu_id seq suppress_taxonomic_output tax gb_id pid =
     str_nat (mw_num + 1) @ [CHR 0x09] @ otu_id @ [CHR 0x09] @ seq @ [CHR 0x09] @
     (if \<not> suppress_taxonomic_output then tax @ [CHR 0x09] else []) @
     gb_id @ [CHR 0x09] @ pid @ [CHR 0x0A]"

definition html_row ::
  "nat \<Rightarrow> string \<Rightarrow> string \<Rightarrow> bool \<Rightarrow> string \<Rightarrow> string \<Rightarrow> string \<Rightarrow> string \<Rightarrow> string \<Rightarrow> string" where
  \<open>html_row mw_num otu_id seq suppress_taxonomic_output tax gb_id pid pie_chart_rel_fp legend_html =
     ''<tr><td>'' @ str_nat (mw_num + 1) @ ''</td><td><pre>&gt;'' @ otu_id @ [CHR 0x0A] @
     join_str [CHR 0x0A] (chunks 40 seq) @ ''</pre></td>'' @
     (if \<not> suppress_taxonomic_output then ''<td>'' @ tax @ ''</td>'' else []) @
     ''<td><a href="'' @ (''http://www.ncbi.nlm.nih.gov/nuccore/'' @ gb_id) @
     ''" target="_blank">'' @ gb_id @ ''</a> ('' @ pid @ ''% sim.)</td>'' @
     ''<td><table><tr><td><img src="'' @ pie_chart_rel_fp @
     ''" width="300" height="300" /></td><td>'' @ legend_html @ ''</td></tr></table></tr>''\<close>

text \<open>
  The loop of lines 286 to 353, with the five variables it appends to and the counter
  \<open>mw_num\<close> of \<^verbatim>\<open>enumerate\<close>. A lookup that fails raises, and the function returns
  nothing. \<^verbatim>\<open>str\<close> of a float is the parameter \<open>str_float\<close>. The calls into
  \<^verbatim>\<open>pylab\<close> and \<^verbatim>\<open>pickle\<close>, which draw the chart and write the two files whose
  paths are recorded, are not modelled: they are taken to return.
\<close>

fun format_results_loop ::
  "(real \<Rightarrow> string) \<Rightarrow> string list \<Rightarrow> (string \<rightharpoonup> string) \<Rightarrow> otu_table \<Rightarrow> string \<Rightarrow> string \<Rightarrow>
   bool \<Rightarrow> int \<Rightarrow> nat \<Rightarrow> blast_hit list \<Rightarrow>
   string \<times> string \<times> string \<times> string list \<times> string list \<Rightarrow>
   py_error + string \<times> string \<times> string \<times> string list \<times> string list" where
  "format_results_loop str_float palette mw_seqs master_otu_table_ms output_img_dir
     mapping_category suppress_taxonomic_output num_categories_to_plot mw_num [] acc = Inr acc"
| "format_results_loop str_float palette mw_seqs master_otu_table_ms output_img_dir
     mapping_category suppress_taxonomic_output num_categories_to_plot mw_num
     ((otu_id, subject_id, percent_identity) # rest)
     (tsv_lines, html_lines, mw_fasta_lines, plot_fps, plot_data_fps) =
     (case mw_seqs otu_id of
        None \<Rightarrow> Inl (KeyError otu_id)
      | Some seq \<Rightarrow>
     (case (if \<not> suppress_taxonomic_output
            then (case taxonomy master_otu_table_ms otu_id of
                    None \<Rightarrow> Inl (UnknownID otu_id)
                  | Some tax \<Rightarrow> Inr tax)
            else Inr []) of
        Inl e \<Rightarrow> Inl e
      | Inr tax \<Rightarrow>
     (case item (split_sep (CHR ''|'') subject_id) 3 of
        Inl e \<Rightarrow> Inl e
      | Inr gb_id \<Rightarrow>
     (case observationData master_otu_table_ms otu_id of
        None \<Rightarrow> Inl (UnknownID otu_id)
      | Some counts \<Rightarrow>
     (case format_pie_chart_data palette (SampleIds master_otu_table_ms) counts
             num_categories_to_plot of
        Inl e \<Rightarrow> Inl e
      | Inr plot_data \<Rightarrow>
          (let pie_chart_filename =
                 ''abundance_by_'' @ mapping_category @ ''_'' @ otu_id @ ''.png'';
               pie_chart_rel_fp =
                 path_join (basename (normpath output_img_dir)) pie_chart_filename;
               pie_chart_abs_fp = path_join output_img_dir pie_chart_filename;
               plot_data_fp =
                 path_join output_img_dir
                   (''abundance_by_'' @ mapping_category @ ''_'' @ otu_id @ ''.p'');
               pid = str_float percent_identity
           in format_results_loop str_float palette mw_seqs master_otu_table_ms output_img_dir
                mapping_category suppress_taxonomic_output num_categories_to_plot (Suc mw_num) rest
                (tsv_lines @ tsv_row mw_num otu_id seq suppress_taxonomic_output tax gb_id pid,
                 html_lines @ html_row mw_num otu_id seq suppress_taxonomic_output tax gb_id pid
                   pie_chart_rel_fp (format_legend_html plot_data),
                 mw_fasta_lines @ fasta_record otu_id seq,
                 plot_fps @ [pie_chart_abs_fp],
                 plot_data_fps @ [plot_data_fp])))))))"

definition format_top_n_results_table ::
  "(real \<Rightarrow> string) \<Rightarrow> string list \<Rightarrow> blast_hit list \<Rightarrow> (string \<rightharpoonup> string) \<Rightarrow> otu_table \<Rightarrow>
   string \<Rightarrow> string \<Rightarrow> bool \<Rightarrow> int \<Rightarrow>
   py_error + string \<times> string \<times> string \<times> string list \<times> string list" where
  "format_top_n_results_table str_float palette top_n_mw mw_seqs master_otu_table_ms
     output_img_dir mapping_category suppress_taxonomic_output num_categories_to_plot =
     (case format_results_loop str_float palette mw_seqs master_otu_table_ms output_img_dir
             mapping_category suppress_taxonomic_output num_categories_to_plot 0 top_n_mw
             (tsv_header suppress_taxonomic_output,
              html_table_header mapping_category suppress_taxonomic_output, [], [], []) of
        Inl e \<Rightarrow> Inl e
      | Inr (tsv_lines, html_lines, mw_fasta_lines, plot_fps, plot_data_fps) \<Rightarrow>
          Inr (tsv_lines, html_lines @ ''</table>'', mw_fasta_lines, plot_fps, plot_data_fps))"

subsection \<open>The sequence lookup: \<^verbatim>\<open>_get_rep_set_lookup\<close>\<close>

text \<open>
  The loop over the records \<open>(seq_id, seq)\<close> that \<^verbatim>\<open>MinimalFastaParser\<close> yields.
  \<^verbatim>\<open>seq_id.strip().split()[0]\<close> is the first word of the identifier line, and an
  \<^verbatim>\<open>IndexError\<close> when the line is blank.
\<close>

fun get_rep_set_lookup_loop ::
  "(string \<times> string) list \<Rightarrow> (string \<rightharpoonup> string) \<Rightarrow> py_error + (string \<rightharpoonup> string)" where
  "get_rep_set_lookup_loop [] result = Inr result"
| "get_rep_set_lookup_loop ((seq_id, seq) # rest) result =
     (let s = strip seq_id in
      if s = [] then Inl IndexError
      else get_rep_set_lookup_loop rest (result(takeWhile (\<lambda>c. \<not> is_space c) s \<mapsto> seq)))"

definition get_rep_set_lookup :: "(string \<times> string) list \<Rightarrow> py_error + (string \<rightharpoonup> string)" where
  "get_rep_set_lookup rep_set_f = get_rep_set_lookup_loop rep_set_f Map.empty"

subsection \<open>The driver: \<^verbatim>\<open>generate_most_wanted_list\<close>\<close>

text \<open>
  The file system, as far as the driver itself touches it: the directories that exist
  and the contents of the files. \<^verbatim>\<open>os.makedirs\<close> raises \<^verbatim>\<open>OSError\<close> when the
  directory exists, and creates it otherwise. Paths are compared as strings.
\<close>

record file_system =
  dirs :: "string set"
  files :: "string \<rightharpoonup> string"

definition makedirs :: "file_system \<Rightarrow> string \<Rightarrow> py_error + file_system" where
  "makedirs fs path =
     (if path \<in> dirs fs then Inl OSError else Inr (fs\<lparr>dirs := insert path (dirs fs)\<rparr>))"

text \<open>\<^verbatim>\<open>open(path, 'w')\<close>, \<^verbatim>\<open>write\<close> and \<^verbatim>\<open>close\<close>.\<close>

definition write_file :: "file_system \<Rightarrow> string \<Rightarrow> string \<Rightarrow> file_system" where
  "write_file fs path text = fs\<lparr>files := (files fs)(path \<mapsto> text)\<rparr>"

text \<open>Lines 49 to 55: the output directory.\<close>

definition make_output_dir :: "file_system \<Rightarrow> string \<Rightarrow> bool \<Rightarrow> py_error + file_system" where
  "make_output_dir fs output_dir force =
     (case makedirs fs output_dir of
        Inr fs' \<Rightarrow> Inr fs'
      | Inl e \<Rightarrow>
          if e = OSError then
            (if \<not> force then
               Inl (WorkflowError
                     (''Output directory '' @ [CHR 0x27] @ output_dir @ [CHR 0x27] @
                      '' already exists. Please choose a different directory, or force overwrite with -f.''))
             else Inr fs)
          else Inl e)"

text \<open>Lines 89 to 95: the directory of the images.\<close>

definition make_img_dir :: "file_system \<Rightarrow> string \<Rightarrow> py_error + file_system" where
  "make_img_dir fs output_dir =
     (case makedirs fs (path_join output_dir ''img'') of
        Inr fs' \<Rightarrow> Inr fs'
      | Inl e \<Rightarrow> if e = OSError then Inr fs else Inl e)"

definition html_header :: string where
  \<open>html_header = ''<html lang="en"><head><meta http-equiv="Content-Type" content="text/html; charset=utf-8"> <title>Most Wanted OTUs</title><link rel="stylesheet" type="text/css" href="most_wanted_otus.css"></head><body>''\<close>

definition html_footer :: string where
  "html_footer = ''</body></html>''"

definition html_dl_links :: "string \<Rightarrow> string \<Rightarrow> string" where
  \<open>html_dl_links mw_tsv_rel_fp mw_fasta_rel_fp =
     ''<a href="'' @ mw_tsv_rel_fp @
     ''" target="_blank">Download table in tab-separated value (TSV) format</a><br /><a href="'' @
     mw_fasta_rel_fp @ ''" target="_blank">Download OTU sequence data in FASTA format</a>''\<close>

text \<open>
  Lines 57 to 124, what the driver does once the output directory is there. Three
  parts of it are outside the module and are parameters here: \<open>run_commands\<close> is
  the logger, the commands of \<^verbatim>\<open>_get_most_wanted_filtering_commands\<close> as run by
  \<^verbatim>\<open>command_handler\<close>, and the opening of the BLAST results, and it gives the file
  system that the commands leave and the lines of that file; \<open>read_rep_set\<close> is
  \<^verbatim>\<open>MinimalFastaParser\<close> on the candidate sequences; \<open>read_otu_table\<close> is
  \<^verbatim>\<open>parse_biom_table\<close>. The log file, and the two files per result that
  \<^verbatim>\<open>pylab\<close> and \<^verbatim>\<open>pickle\<close> write, are not part of the file system of the model.
\<close>

definition most_wanted_report ::
  "(string \<Rightarrow> py_error + real) \<Rightarrow> (real \<Rightarrow> string) \<Rightarrow> string list \<Rightarrow>
   (file_system \<Rightarrow> py_error + file_system \<times> string list) \<Rightarrow>
   (file_system \<Rightarrow> py_error + (string \<times> string) list) \<Rightarrow>
   (file_system \<Rightarrow> py_error + otu_table) \<Rightarrow>
   file_system \<Rightarrow> string \<Rightarrow> string \<Rightarrow> int \<Rightarrow> int \<Rightarrow> real \<Rightarrow> bool \<Rightarrow> py_error + file_system" where
  "most_wanted_report to_float str_float palette run_commands read_rep_set read_otu_table
     fs output_dir mapping_category top_n num_categories_to_plot max_nt_similarity
     suppress_taxonomic_output =
     (case run_commands fs of
        Inl e \<Rightarrow> Inl e
      | Inr (fs2, blast_results_f) \<Rightarrow>
     (case get_top_n_blast_results to_float blast_results_f top_n max_nt_similarity of
        Inl e \<Rightarrow> Inl e
      | Inr top_n_mw \<Rightarrow>
     (case read_rep_set fs2 of
        Inl e \<Rightarrow> Inl e
      | Inr rep_set_f \<Rightarrow>
     (case get_rep_set_lookup rep_set_f of
        Inl e \<Rightarrow> Inl e
      | Inr mw_seqs \<Rightarrow>
     (case read_otu_table fs2 of
        Inl e \<Rightarrow> Inl e
      | Inr master_otu_table_ms \<Rightarrow>
     (case make_img_dir fs2 output_dir of
        Inl e \<Rightarrow> Inl e
      | Inr fs3 \<Rightarrow>
     (case format_top_n_results_table str_float palette top_n_mw mw_seqs master_otu_table_ms
             (path_join output_dir ''img'') mapping_category suppress_taxonomic_output
             num_categories_to_plot of
        Inl e \<Rightarrow> Inl e
      | Inr (tsv_lines, html_table_lines, mw_fasta_lines, plot_fps, plot_data_fps) \<Rightarrow>
          (let mw_tsv_rel_fp = ''most_wanted_otus.txt'';
               fs4 = write_file fs3 (path_join output_dir mw_tsv_rel_fp) tsv_lines;
               mw_fasta_rel_fp = ''most_wanted_otus.fasta'';
               fs5 = write_file fs4 (path_join output_dir mw_fasta_rel_fp) mw_fasta_lines;
               links = html_dl_links mw_tsv_rel_fp mw_fasta_rel_fp;
               html_lines =
                 html_header @ ''<div>'' @ links @ ''<br /><br />'' @ html_table_lines @
                 ''<br />'' @ links @ ''</div>'' @ html_footer
           in Inr (write_file fs5 (path_join output_dir ''most_wanted_otus.html'') html_lines)))))))))"

definition generate_most_wanted_list ::
  "(string \<Rightarrow> py_error + real) \<Rightarrow> (real \<Rightarrow> string) \<Rightarrow> string list \<Rightarrow>
   (file_system \<Rightarrow> py_error + file_system \<times> string list) \<Rightarrow>
   (file_system \<Rightarrow> py_error + (string \<times> string) list) \<Rightarrow>
   (file_system \<Rightarrow> py_error + otu_table) \<Rightarrow>
   file_system \<Rightarrow> string \<Rightarrow> string \<Rightarrow> int \<Rightarrow> int \<Rightarrow> real \<Rightarrow> bool \<Rightarrow> bool \<Rightarrow>
   py_error + file_system" where
  "generate_most_wanted_list to_float str_float palette run_commands read_rep_set read_otu_table
     fs output_dir mapping_category top_n num_categories_to_plot max_nt_similarity
     suppress_taxonomic_output force =
     (case make_output_dir fs output_dir force of
        Inl e \<Rightarrow> Inl e
      | Inr fs1 \<Rightarrow>
          most_wanted_report to_float str_float palette run_commands read_rep_set read_otu_table
            fs1 output_dir mapping_category top_n num_categories_to_plot max_nt_similarity
            suppress_taxonomic_output)"

subsection \<open>Descriptions used in the statements\<close>

text \<open>
  For the statements about the selector: a hit is the first qualifying occurrence of
  its query identifier when it is the hit of a line that passes the threshold test,
  and no earlier line for the same identifier passes it. The function reads the lines
  in order: the first line whose hit has the identifier of \<open>h\<close> and passes the test
  decides.
\<close>

fun first_qualifying ::
  "(string \<Rightarrow> py_error + real) \<Rightarrow> real \<Rightarrow> string list \<Rightarrow> blast_hit \<Rightarrow> bool" where
  "first_qualifying to_float max_nt_similarity [] h = False"
| "first_qualifying to_float max_nt_similarity (l # ls) h =
     (case parse_blast_line to_float l of
        Inr (Some h') \<Rightarrow>
          if otu_id_of h' = otu_id_of h \<and> percent_identity_of h' / 100 \<le> max_nt_similarity
          then h' = h
          else first_qualifying to_float max_nt_similarity ls h
      | _ \<Rightarrow> first_qualifying to_float max_nt_similarity ls h)"

text \<open>
  For the statements about the summarizer, a description of its result that does not
  go through the list of triples: \<open>kept_positions data max_count\<close> are the positions
  of the input, in the order of the result. They are the positions \<open>0, 1, \<dots>\<close> ordered by
  descending count, positions with equal counts in ascending order, cut by the slice
  \<^verbatim>\<open>[:max_count]\<close>.
\<close>

definition kept_positions :: "int list \<Rightarrow> int \<Rightarrow> nat list" where
  "kept_positions data max_count =
     slice_to max_count (sorted_reverse (\<lambda>i. data ! i) [0..<length data])"

text \<open>
  The row of a ranked result in closed form, from its number \<open>mw_num\<close> and the hit:
  what the loop of the assembler appends to \<open>tsv_lines\<close> and to \<open>html_lines\<close> in a
  pass that raises nothing.
\<close>

definition tsv_line_of ::
  "(real \<Rightarrow> string) \<Rightarrow> (string \<rightharpoonup> string) \<Rightarrow> otu_table \<Rightarrow> bool \<Rightarrow> nat \<times> blast_hit \<Rightarrow> string" where
  "tsv_line_of str_float mw_seqs t suppress =
     (\<lambda>(mw_num, otu_id, subject_id, percent_identity).
        tsv_row mw_num otu_id (the (mw_seqs otu_id)) suppress
          (if suppress then [] else the (taxonomy t otu_id))
          (split_sep (CHR ''|'') subject_id ! 3) (str_float percent_identity))"

definition html_line_of ::
  "(real \<Rightarrow> string) \<Rightarrow> string list \<Rightarrow> (string \<rightharpoonup> string) \<Rightarrow> otu_table \<Rightarrow> string \<Rightarrow> string \<Rightarrow>
   bool \<Rightarrow> int \<Rightarrow> nat \<times> blast_hit \<Rightarrow> string" where
  "html_line_of str_float palette mw_seqs t output_img_dir mapping_category suppress n =
     (\<lambda>(mw_num, otu_id, subject_id, percent_identity).
        html_row mw_num otu_id (the (mw_seqs otu_id)) suppress
          (if suppress then [] else the (taxonomy t otu_id))
          (split_sep (CHR ''|'') subject_id ! 3) (str_float percent_identity)
          (path_join (basename (normpath output_img_dir))
             (''abundance_by_'' @ mapping_category @ ''_'' @ otu_id @ ''.png''))
          (format_legend_html
             (projr (format_pie_chart_data palette (SampleIds t)
                       (the (observationData t otu_id)) n))))"

text \<open>\<^verbatim>\<open>s.count('\n')\<close>: the number of lines of a text whose lines all end with a
  newline.\<close>

definition line_count :: "string \<Rightarrow> nat" where
  "line_count s = length (filter (\<lambda>c. c = CHR 0x0A) s)"

text \<open>No field that goes into a row of the table holds a newline.\<close>

definition single_line_fields ::
  "(real \<Rightarrow> string) \<Rightarrow> (string \<rightharpoonup> string) \<Rightarrow> otu_table \<Rightarrow> bool \<Rightarrow> blast_hit list \<Rightarrow> bool" where
  "single_line_fields str_float mw_seqs t suppress top_n_mw \<longleftrightarrow>
     (\<forall>(otu_id, subject_id, percent_identity) \<in> set top_n_mw.
        CHR 0x0A \<notin> set otu_id \<and> CHR 0x0A \<notin> set subject_id \<and>
        CHR 0x0A \<notin> set (str_float percent_identity) \<and>
        (\<forall>seq. mw_seqs otu_id = Some seq \<longrightarrow> CHR 0x0A \<notin> set seq) \<and>
        (\<not> suppress \<longrightarrow> (\<forall>tax. taxonomy t otu_id = Some tax \<longrightarrow> CHR 0x0A \<notin> set tax)))"

subsection \<open>Inputs for the examples\<close>

text \<open>
  The theorems below hold for every \<open>to_float\<close>. The examples need one that runs:
  \<open>decimal_float\<close> reads an optional sign, digits and an optional fraction, as
  \<^verbatim>\<open>float\<close> does on such a literal, and rejects every other string with the
  \<^verbatim>\<open>ValueError\<close> of Python 2.7 (exponents, \<^verbatim>\<open>inf\<close>, \<^verbatim>\<open>nan\<close> and surrounding
  whitespace, which \<^verbatim>\<open>float\<close> accepts, are not used in any example).
\<close>

definition digit_val :: "char \<Rightarrow> nat option" where
  "digit_val c = (let n = (of_char c :: nat) in if 48 \<le> n \<and> n \<le> 57 then Some (n - 48) else None)"

fun nat_of_digits :: "nat \<Rightarrow> string \<Rightarrow> nat option" where
  "nat_of_digits acc [] = Some acc"
| "nat_of_digits acc (c # cs) =
     (case digit_val c of None \<Rightarrow> None | Some d \<Rightarrow> nat_of_digits (10 * acc + d) cs)"

definition decimal_float :: "string \<Rightarrow> py_error + real" where
  "decimal_float s =
     (let (neg, body) = (case s of
                           [] \<Rightarrow> (False, s)
                         | c # r \<Rightarrow> if c = CHR ''-'' then (True, r)
                                    else if c = CHR ''+'' then (False, r) else (False, s));
          ip = takeWhile (\<lambda>c. c \<noteq> CHR ''.'') body;
          fp = drop 1 (dropWhile (\<lambda>c. c \<noteq> CHR ''.'') body)
      in if ip = [] \<and> fp = [] then Inl (ValueError (''could not convert string to float: '' @ s))
         else (case (nat_of_digits 0 ip, nat_of_digits 0 fp) of
                 (Some a, Some b) \<Rightarrow>
                    Inr ((if neg then - 1 else 1) * (of_nat a + of_nat b / 10 ^ length fp))
               | _ \<Rightarrow> Inl (ValueError (''could not convert string to float: '' @ s))))"

text \<open>A line of tabular search output with three fields, as read from the file.\<close>

definition blast_line :: "string \<Rightarrow> string \<Rightarrow> string \<Rightarrow> string" where
  "blast_line q s p = q @ [CHR 0x09] @ s @ [CHR 0x09] @ p @ [CHR 0x0A]"

text \<open>\<^verbatim>\<open>str\<close> of a float that is not negative and has at most one decimal, such as
  \<^verbatim>\<open>2.0\<close> and \<^verbatim>\<open>97.5\<close>.\<close>

definition str_float_1 :: "real \<Rightarrow> string" where
  "str_float_1 x = str_nat (nat \<lfloor>x\<rfloor>) @ ''.'' @ str_nat (nat \<lfloor>x * 10\<rfloor> mod 10)"

text \<open>A table with two sample groups and two observations.\<close>

definition example_table :: otu_table where
  "example_table =
     \<lparr>SampleIds = [''soil'', ''water''],
      observationData = [''OTU1'' \<mapsto> [30, 10], ''OTU2'' \<mapsto> [10, 30]],
      taxonomy = [''OTU1'' \<mapsto> ''k__Bacteria'', ''OTU2'' \<mapsto> ''k__Archaea'']\<rparr>"

text \<open>A file system in which the output directory \<^verbatim>\<open>out\<close> exists, and stand-ins for
  the commands and the two parsers: they leave the file system as it is and return two
  lines of search results, two sequence records and the table above.\<close>

definition example_fs :: file_system where
  "example_fs = \<lparr>dirs = {''out''}, files = Map.empty\<rparr>"

definition example_commands :: "file_system \<Rightarrow> py_error + file_system \<times> string list" where
  "example_commands fs =
     Inr (fs, [blast_line ''OTU1'' ''gi|11|gb|AB1.1|'' ''5.0'',
               blast_line ''OTU2'' ''gi|22|gb|AB2.1|'' ''2.0''])"

definition example_rep_set :: "file_system \<Rightarrow> py_error + (string \<times> string) list" where
  "example_rep_set fs = Inr [(''OTU1 first'', ''ACGT''), (''OTU2'', ''GGCC'')]"

section \<open>Properties of the top-N selector\<close>

subsection \<open>The loop\<close>

lemma top_n_loop_Cons_cases:
  assumes "top_n_loop tf thr (l # ls) res seen = Inr out"
  obtains (skip) "parse_blast_line tf l = Inr None"
      and "top_n_loop tf thr ls res seen = Inr out"
  | (keep) q s p where "parse_blast_line tf l = Inr (Some (q, s, p))"
      and "p / 100 \<le> thr" and "seen q = None"
      and "top_n_loop tf thr ls (res @ [(q, s, p)]) (seen(q \<mapsto> True)) = Inr out"
  | (drop) q s p where "parse_blast_line tf l = Inr (Some (q, s, p))"
      and "\<not> (p / 100 \<le> thr \<and> seen q = None)"
      and "top_n_loop tf thr ls res seen = Inr out"
  using assms by (auto split: sum.splits option.splits prod.splits if_splits)

lemma otu_id_of_simp [simp]: "otu_id_of (q, s, p) = q"
  by (simp add: otu_id_of_def)

lemma percent_identity_of_simp [simp]: "percent_identity_of (q, s, p) = p"
  by (simp add: percent_identity_of_def)

lemma top_n_loop_threshold:
  "top_n_loop tf thr ls res seen = Inr out \<Longrightarrow> h \<in> set out \<Longrightarrow>
   h \<in> set res \<or> percent_identity_of h / 100 \<le> thr"
proof (induction ls arbitrary: res seen)
  case Nil
  then show ?case by simp
next
  case (Cons l ls)
  from Cons.prems(1) show ?case
  proof (cases rule: top_n_loop_Cons_cases)
    case skip
    then show ?thesis using Cons.IH Cons.prems(2) by blast
  next
    case (keep q s p)
    from Cons.IH [OF keep(4) Cons.prems(2)]
    show ?thesis using keep(2) by auto
  next
    case (drop q s p)
    then show ?thesis using Cons.IH Cons.prems(2) by blast
  qed
qed

lemma top_n_loop_distinct:
  "top_n_loop tf thr ls res seen = Inr out \<Longrightarrow> distinct (map otu_id_of res) \<Longrightarrow>
   otu_id_of ` set res \<subseteq> dom seen \<Longrightarrow> distinct (map otu_id_of out)"
proof (induction ls arbitrary: res seen)
  case Nil
  then show ?case by simp
next
  case (Cons l ls)
  from Cons.prems(1) show ?case
  proof (cases rule: top_n_loop_Cons_cases)
    case skip
    then show ?thesis using Cons.IH Cons.prems(2,3) by blast
  next
    case (keep q s p)
    have "q \<notin> otu_id_of ` set res"
      using keep(3) Cons.prems(3) by auto
    then have d: "distinct (map otu_id_of (res @ [(q, s, p)]))"
      using Cons.prems(2) by simp
    have "otu_id_of ` set (res @ [(q, s, p)]) \<subseteq> dom (seen(q \<mapsto> True))"
      using Cons.prems(3) by auto
    with Cons.IH [OF keep(4) d] show ?thesis .
  next
    case (drop q s p)
    then show ?thesis using Cons.IH Cons.prems(2,3) by blast
  qed
qed

text \<open>Every hit of the result that was not there before comes from the first line
  for its query identifier that passes the threshold test.\<close>

lemma top_n_loop_first:
  "top_n_loop tf thr ls res seen = Inr out \<Longrightarrow> (q, s, p) \<in> set out \<Longrightarrow>
   (q, s, p) \<in> set res \<or>
   (seen q = None \<and>
    (\<exists>pre l post. ls = pre @ l # post \<and> parse_blast_line tf l = Inr (Some (q, s, p)) \<and>
       p / 100 \<le> thr \<and>
       (\<forall>l' \<in> set pre. \<forall>s' p'. parse_blast_line tf l' = Inr (Some (q, s', p')) \<longrightarrow>
           \<not> p' / 100 \<le> thr)))"
proof (induction ls arbitrary: res seen)
  case Nil
  then show ?case by simp
next
  case (Cons x ls)
  let ?P = "\<lambda>ls. \<exists>pre l post. ls = pre @ l # post \<and> parse_blast_line tf l = Inr (Some (q, s, p)) \<and>
       p / 100 \<le> thr \<and>
       (\<forall>l' \<in> set pre. \<forall>s' p'. parse_blast_line tf l' = Inr (Some (q, s', p')) \<longrightarrow>
           \<not> p' / 100 \<le> thr)"
  have ext: "?P (x # ls)"
    if "?P ls" and "\<forall>s' p'. parse_blast_line tf x = Inr (Some (q, s', p')) \<longrightarrow> \<not> p' / 100 \<le> thr"
  proof -
    from that(1) obtain pre l post where h: "ls = pre @ l # post"
      "parse_blast_line tf l = Inr (Some (q, s, p))" "p / 100 \<le> thr"
      "\<forall>l' \<in> set pre. \<forall>s' p'. parse_blast_line tf l' = Inr (Some (q, s', p')) \<longrightarrow>
           \<not> p' / 100 \<le> thr" by blast
    have "x # ls = (x # pre) @ l # post" using h(1) by simp
    moreover have "\<forall>l' \<in> set (x # pre). \<forall>s' p'. parse_blast_line tf l' = Inr (Some (q, s', p')) \<longrightarrow>
           \<not> p' / 100 \<le> thr" using h(4) that(2) by simp
    ultimately show ?thesis using h(2,3) by blast
  qed
  from Cons.prems(1) show ?case
  proof (cases rule: top_n_loop_Cons_cases)
    case skip
    from Cons.IH [OF skip(2) Cons.prems(2)] show ?thesis
      using ext skip(1) by auto
  next
    case (keep q' s' p')
    from Cons.IH [OF keep(4) Cons.prems(2)]
    consider "(q, s, p) \<in> set res" | "(q, s, p) = (q', s', p')"
      | "(seen(q' \<mapsto> True)) q = None" "?P ls" by auto
    then show ?thesis
    proof cases
      case 1
      then show ?thesis by simp
    next
      case 2
      have "x # ls = [] @ x # ls" by simp
      moreover have "parse_blast_line tf x = Inr (Some (q, s, p))" using keep(1) 2 by simp
      moreover have "p / 100 \<le> thr" using keep(2) 2 by simp
      ultimately have "?P (x # ls)" by (metis empty_iff empty_set)
      moreover have "seen q = None" using keep(3) 2 by simp
      ultimately show ?thesis by blast
    next
      case 3
      from 3(1) have ne: "q \<noteq> q'" and sn: "seen q = None" by (auto split: if_splits)
      from ne keep(1) have "\<forall>s' p'. parse_blast_line tf x = Inr (Some (q, s', p')) \<longrightarrow> \<not> p' / 100 \<le> thr"
        by simp
      from ext [OF 3(2) this] sn show ?thesis by blast
    qed
  next
    case (drop q' s' p')
    from Cons.IH [OF drop(3) Cons.prems(2)]
    consider "(q, s, p) \<in> set res" | "seen q = None" "?P ls" by auto
    then show ?thesis
    proof cases
      case 1
      then show ?thesis by simp
    next
      case 2
      have "\<forall>s'' p''. parse_blast_line tf x = Inr (Some (q, s'', p'')) \<longrightarrow> \<not> p'' / 100 \<le> thr"
        using drop(1,2) 2(1) by auto
      from ext [OF 2(2) this] 2(1) show ?thesis by blast
    qed
  qed
qed

text \<open>Conversely, the first line for a query identifier that passes the threshold test
  puts its hit into the result, and no pass of the loop removes a hit.\<close>

lemma top_n_loop_mono:
  "top_n_loop tf thr ls res seen = Inr out \<Longrightarrow> set res \<subseteq> set out"
proof (induction ls arbitrary: res seen)
  case Nil
  then show ?case by simp
next
  case (Cons l ls)
  from Cons.prems show ?case
  proof (cases rule: top_n_loop_Cons_cases)
    case skip
    then show ?thesis using Cons.IH by blast
  next
    case (keep q s p)
    from Cons.IH [OF keep(4)] show ?thesis by auto
  next
    case (drop q s p)
    then show ?thesis using Cons.IH by blast
  qed
qed

lemma top_n_loop_complete:
  assumes "top_n_loop tf thr (pre @ l # post) res seen = Inr out"
    and "parse_blast_line tf l = Inr (Some (q, s, p))" and "p / 100 \<le> thr"
    and "\<forall>l' \<in> set pre. \<forall>s' p'. parse_blast_line tf l' = Inr (Some (q, s', p')) \<longrightarrow>
           \<not> p' / 100 \<le> thr"
    and "seen q = None"
  shows "(q, s, p) \<in> set out"
  using assms
proof (induction pre arbitrary: res seen)
  case Nil
  from Nil.prems(1) have "top_n_loop tf thr (l # post) res seen = Inr out" by simp
  then show ?case
  proof (cases rule: top_n_loop_Cons_cases)
    case skip
    with Nil.prems(2) show ?thesis by simp
  next
    case (keep q' s' p')
    with Nil.prems(2) have "(q, s, p) \<in> set (res @ [(q', s', p')])" by simp
    with top_n_loop_mono [OF keep(4)] show ?thesis by blast
  next
    case (drop q' s' p')
    with Nil.prems(2,3,5) show ?thesis by simp
  qed
next
  case (Cons x pre)
  from Cons.prems(1) have "top_n_loop tf thr (x # (pre @ l # post)) res seen = Inr out" by simp
  then show ?case
  proof (cases rule: top_n_loop_Cons_cases)
    case skip
    from Cons.IH [OF skip(2) Cons.prems(2,3) _ Cons.prems(5)] Cons.prems(4)
    show ?thesis by simp
  next
    case (keep q' s' p')
    have "q' \<noteq> q" using keep(1,2) Cons.prems(4) by auto
    then have "(seen(q' \<mapsto> True)) q = None" using Cons.prems(5) by simp
    from Cons.IH [OF keep(4) Cons.prems(2,3) _ this] Cons.prems(4)
    show ?thesis by simp
  next
    case (drop q' s' p')
    from Cons.IH [OF drop(3) Cons.prems(2,3) _ Cons.prems(5)] Cons.prems(4)
    show ?thesis by simp
  qed
qed

text \<open>The first qualifying occurrence, said with the lines before it.\<close>

lemma first_qualifying_iff:
  "first_qualifying to_float thr ls h \<longleftrightarrow>
     (\<exists>pre l post.
        ls = pre @ l # post \<and>
        parse_blast_line to_float l = Inr (Some h) \<and>
        percent_identity_of h / 100 \<le> thr \<and>
        (\<forall>l' \<in> set pre. \<forall>h'.
           parse_blast_line to_float l' = Inr (Some h') \<and> otu_id_of h' = otu_id_of h \<longrightarrow>
           \<not> percent_identity_of h' / 100 \<le> thr))"
  (is "_ \<longleftrightarrow> ?R ls")
proof (induction ls)
  case Nil
  then show ?case by simp
next
  case (Cons x ls)
  let ?decides = "\<exists>h'. parse_blast_line to_float x = Inr (Some h') \<and>
      otu_id_of h' = otu_id_of h \<and> percent_identity_of h' / 100 \<le> thr"
  show ?case
  proof (cases ?decides)
    case True
    then obtain h' where h': "parse_blast_line to_float x = Inr (Some h')"
      "otu_id_of h' = otu_id_of h" "percent_identity_of h' / 100 \<le> thr" by blast
    then have l: "first_qualifying to_float thr (x # ls) h \<longleftrightarrow> h' = h" by simp
    have "?R (x # ls) \<longleftrightarrow> h' = h"
    proof
      assume "?R (x # ls)"
      then obtain pre l post where r: "x # ls = pre @ l # post"
        "parse_blast_line to_float l = Inr (Some h)"
        "\<forall>l' \<in> set pre. \<forall>h'.
           parse_blast_line to_float l' = Inr (Some h') \<and> otu_id_of h' = otu_id_of h \<longrightarrow>
           \<not> percent_identity_of h' / 100 \<le> thr" by blast
      show "h' = h"
      proof (cases pre)
        case Nil
        with r(1,2) h'(1) show ?thesis by simp
      next
        case (Cons y pre')
        with r(1) have "x \<in> set pre" by simp
        with r(3) h' show ?thesis by blast
      qed
    next
      assume "h' = h"
      with h' have "x # ls = [] @ x # ls \<and> parse_blast_line to_float x = Inr (Some h) \<and>
        percent_identity_of h / 100 \<le> thr" by simp
      then show "?R (x # ls)" by (metis empty_iff empty_set)
    qed
    with l show ?thesis by simp
  next
    case False
    then have l: "first_qualifying to_float thr (x # ls) h \<longleftrightarrow> first_qualifying to_float thr ls h"
      by (auto split: sum.splits option.splits)
    have "?R (x # ls) \<longleftrightarrow> ?R ls"
    proof
      assume "?R (x # ls)"
      then obtain pre l post where r: "x # ls = pre @ l # post"
        "parse_blast_line to_float l = Inr (Some h)" "percent_identity_of h / 100 \<le> thr"
        "\<forall>l' \<in> set pre. \<forall>h'.
           parse_blast_line to_float l' = Inr (Some h') \<and> otu_id_of h' = otu_id_of h \<longrightarrow>
           \<not> percent_identity_of h' / 100 \<le> thr" by blast
      show "?R ls"
      proof (cases pre)
        case Nil
        with r(1,2,3) False show ?thesis by auto
      next
        case (Cons y pre')
        with r(1) have "ls = pre' @ l # post" by simp
        moreover from Cons r(4) have "\<forall>l' \<in> set pre'. \<forall>h'.
           parse_blast_line to_float l' = Inr (Some h') \<and> otu_id_of h' = otu_id_of h \<longrightarrow>
           \<not> percent_identity_of h' / 100 \<le> thr" by simp
        ultimately show ?thesis using r(2,3) by blast
      qed
    next
      assume "?R ls"
      then obtain pre l post where r: "ls = pre @ l # post"
        "parse_blast_line to_float l = Inr (Some h)" "percent_identity_of h / 100 \<le> thr"
        "\<forall>l' \<in> set pre. \<forall>h'.
           parse_blast_line to_float l' = Inr (Some h') \<and> otu_id_of h' = otu_id_of h \<longrightarrow>
           \<not> percent_identity_of h' / 100 \<le> thr" by blast
      have "x # ls = (x # pre) @ l # post" using r(1) by simp
      moreover have "\<forall>l' \<in> set (x # pre). \<forall>h'.
           parse_blast_line to_float l' = Inr (Some h') \<and> otu_id_of h' = otu_id_of h \<longrightarrow>
           \<not> percent_identity_of h' / 100 \<le> thr" using r(4) False by auto
      ultimately show "?R (x # ls)" using r(2,3) by blast
    qed
    with l Cons.IH show ?thesis by simp
  qed
qed

text \<open>The result of the loop holds exactly the first qualifying occurrences.\<close>

lemma top_n_loop_first_qualifying:
  assumes "top_n_loop to_float thr ls [] Map.empty = Inr kept"
  shows "h \<in> set kept \<longleftrightarrow> first_qualifying to_float thr ls h"
proof
  obtain q s p where h: "h = (q, s, p)" by (cases h)
  assume "h \<in> set kept"
  with top_n_loop_first [OF assms, of q s p] h
  obtain pre l post where "ls = pre @ l # post"
    "parse_blast_line to_float l = Inr (Some (q, s, p))" "p / 100 \<le> thr"
    "\<forall>l' \<in> set pre. \<forall>s' p'. parse_blast_line to_float l' = Inr (Some (q, s', p')) \<longrightarrow>
         \<not> p' / 100 \<le> thr"
    by auto
  then show "first_qualifying to_float thr ls h"
    unfolding first_qualifying_iff h by (intro exI [of _ pre] exI [of _ l] exI [of _ post]) auto
next
  obtain q s p where h: "h = (q, s, p)" by (cases h)
  assume "first_qualifying to_float thr ls h"
  then obtain pre l post where ls: "ls = pre @ l # post"
    and l: "parse_blast_line to_float l = Inr (Some (q, s, p))" and p: "p / 100 \<le> thr"
    and pre: "\<forall>l' \<in> set pre. \<forall>h'.
           parse_blast_line to_float l' = Inr (Some h') \<and> otu_id_of h' = q \<longrightarrow>
           \<not> percent_identity_of h' / 100 \<le> thr"
    unfolding first_qualifying_iff h by auto
  have pre': "\<forall>l' \<in> set pre. \<forall>s' p'. parse_blast_line to_float l' = Inr (Some (q, s', p')) \<longrightarrow>
         \<not> p' / 100 \<le> thr"
  proof (intro ballI allI impI)
    fix l' s' p'
    assume "l' \<in> set pre" and "parse_blast_line to_float l' = Inr (Some (q, s', p'))"
    with pre have "\<not> percent_identity_of (q, s', p') / 100 \<le> thr"
      using otu_id_of_simp [of q s' p'] by blast
    then show "\<not> p' / 100 \<le> thr" by simp
  qed
  from top_n_loop_complete [OF assms [unfolded ls] l p pre'] h show "h \<in> set kept" by simp
qed

lemma top_n_loop_total:
  "\<forall>l \<in> set ls. \<exists>r. parse_blast_line tf l = Inr r \<Longrightarrow>
   \<exists>out. top_n_loop tf thr ls res seen = Inr out"
  by (induction ls arbitrary: res seen) (auto split: option.splits)

lemma top_n_loop_error:
  "top_n_loop tf thr ls res seen = Inr out \<Longrightarrow> l \<in> set ls \<Longrightarrow> \<exists>r. parse_blast_line tf l = Inr r"
proof (induction ls arbitrary: res seen)
  case Nil
  then show ?case by simp
next
  case (Cons x ls)
  from Cons.prems(1) show ?case
    by (cases rule: top_n_loop_Cons_cases) (use Cons.IH Cons.prems(2) in auto)
qed

subsection \<open>The slice and the sort\<close>

lemma slice_to_take: "\<exists>k. slice_to n xs = take k xs"
  by (auto simp: slice_to_def)

lemma set_slice_to: "set (slice_to n xs) \<subseteq> set xs"
  by (auto simp: slice_to_def dest: in_set_takeD)

lemma length_slice_to: "0 \<le> n \<Longrightarrow> int (length (slice_to n xs)) \<le> n"
  by (simp add: slice_to_def)

subsection \<open>The selector\<close>

lemma get_top_n_blast_results_Inr:
  assumes "get_top_n_blast_results to_float ls top_n thr = Inr hits"
  obtains result where "top_n_loop to_float thr ls [] Map.empty = Inr result"
    and "hits = slice_to top_n (sort_key percent_identity_of result)"
  using assms by (auto simp: get_top_n_blast_results_def split: sum.splits)

text \<open>The selector returns exactly when no line raises: every line is skipped or has its
  three fields, the third a number.\<close>

lemma get_top_n_blast_results_returns_iff:
  "(\<exists>hits. get_top_n_blast_results to_float ls top_n thr = Inr hits) \<longleftrightarrow>
   (\<forall>l \<in> set ls. \<not> isl (parse_blast_line to_float l))"
proof
  assume "\<exists>hits. get_top_n_blast_results to_float ls top_n thr = Inr hits"
  then obtain result where "top_n_loop to_float thr ls [] Map.empty = Inr result"
    by (auto elim: get_top_n_blast_results_Inr)
  from top_n_loop_error [OF this] show "\<forall>l \<in> set ls. \<not> isl (parse_blast_line to_float l)"
    by fastforce
next
  assume "\<forall>l \<in> set ls. \<not> isl (parse_blast_line to_float l)"
  then have "\<forall>l \<in> set ls. \<exists>r. parse_blast_line to_float l = Inr r"
    by (metis isl_def sum.exhaust_sel sum.collapse(2))
  from top_n_loop_total [OF this, of thr "[]" Map.empty]
  show "\<exists>hits. get_top_n_blast_results to_float ls top_n thr = Inr hits"
    by (auto simp: get_top_n_blast_results_def)
qed

lemma distinct_map_sort_key:
  "distinct (map g (sort_key f xs)) = distinct (map g xs)"
proof -
  have "mset (map g (sort_key f xs)) = mset (map g xs)" by simp
  then show ?thesis by (rule mset_eq_imp_distinct_iff)
qed

text \<open>
  Claim C1, as amended. When the selector returns, every returned hit has a percent
  identity that, divided by 100, is at most the threshold \<open>max_nt_similarity\<close>
  (the cutoff is inclusive), for every \<open>top_n\<close>; and it returns at most \<open>top_n\<close>
  hits when \<open>top_n\<close> is not negative. (For a negative \<open>top_n\<close> the slice
  \<^verbatim>\<open>[:top_n]\<close> drops the last \<open>- top_n\<close> hits instead: see the counterexample.)
\<close>

theorem top_n_size_and_threshold:
  assumes "get_top_n_blast_results to_float ls top_n thr = Inr hits"
  shows "(0 \<le> top_n \<longrightarrow> int (length hits) \<le> top_n) \<and>
         (\<forall>h \<in> set hits. percent_identity_of h / 100 \<le> thr)"
proof -
  from assms obtain result where loop: "top_n_loop to_float thr ls [] Map.empty = Inr result"
    and hits: "hits = slice_to top_n (sort_key percent_identity_of result)"
    by (rule get_top_n_blast_results_Inr)
  have "int (length hits) \<le> top_n" if "0 \<le> top_n"
    using that hits by (simp add: length_slice_to)
  moreover have "percent_identity_of h / 100 \<le> thr" if "h \<in> set hits" for h
  proof -
    from that hits have "h \<in> set result" using set_slice_to by fastforce
    with top_n_loop_threshold [OF loop] show ?thesis by auto
  qed
  ultimately show ?thesis by blast
qed

text \<open>No query identifier is returned twice.\<close>

lemma top_n_distinct_hits:
  assumes "get_top_n_blast_results to_float ls top_n thr = Inr hits"
  shows "distinct (map otu_id_of hits)"
proof -
  from assms obtain result where loop: "top_n_loop to_float thr ls [] Map.empty = Inr result"
    and hits: "hits = slice_to top_n (sort_key percent_identity_of result)"
    by (rule get_top_n_blast_results_Inr)
  obtain k where k: "hits = take k (sort_key percent_identity_of result)"
    using hits slice_to_take by blast
  have "distinct (map otu_id_of result)"
    using top_n_loop_distinct [OF loop] by simp
  then have "distinct (map otu_id_of (sort_key percent_identity_of result))"
    by (simp only: distinct_map_sort_key)
  then have "distinct (take k (map otu_id_of (sort_key percent_identity_of result)))"
    by (rule distinct_take)
  then show ?thesis
    by (simp add: k take_map)
qed

text \<open>
  Claim C2. When the selector returns, the query identifiers of the returned hits are
  pairwise distinct, and the hits are in ascending order of percent identity.
\<close>

theorem top_n_distinct_and_sorted:
  assumes "get_top_n_blast_results to_float ls top_n thr = Inr hits"
  shows "distinct (map otu_id_of hits) \<and> sorted (map percent_identity_of hits)"
proof -
  from assms obtain result where
    hits: "hits = slice_to top_n (sort_key percent_identity_of result)"
    by (rule get_top_n_blast_results_Inr)
  obtain k where k: "hits = take k (sort_key percent_identity_of result)"
    using hits slice_to_take by blast
  have "sorted (map percent_identity_of (sort_key percent_identity_of result))"
    by (rule sorted_sort_key)
  then have "sorted (take k (map percent_identity_of (sort_key percent_identity_of result)))"
    by (rule sorted_wrt_take)
  then have "sorted (map percent_identity_of hits)"
    by (simp add: k take_map)
  with top_n_distinct_hits [OF assms] show ?thesis by simp
qed

text \<open>The definitions that a run on concrete lines unfolds.\<close>

lemmas top_n_eval =
  get_top_n_blast_results_def parse_blast_line_def blast_line_def strip_def is_space_def
  startswith_def slice_to_def decimal_float_def digit_val_def

text \<open>The example of the specification: three lines, the third a second hit of
  \<^verbatim>\<open>OTU1\<close>; threshold 0.1, \<open>top_n = 2\<close>.\<close>

lemma example_hits:
  "get_top_n_blast_results decimal_float
     [blast_line ''OTU1'' ''gi|1'' ''5.0'', blast_line ''OTU2'' ''gi|2'' ''2.0'',
      blast_line ''OTU1'' ''gi|3'' ''1.0''] 2 (1 / 10)
   = Inr [(''OTU2'', ''gi|2'', 2), (''OTU1'', ''gi|1'', 5)]"
  by (simp add: top_n_eval)

text \<open>C1, witness: the example of the specification, where \<open>0 \<le> top_n\<close> holds and the
  selector returns two hits.\<close>

theorem top_n_size_and_threshold_witness:
  "get_top_n_blast_results decimal_float
     [blast_line ''OTU1'' ''gi|1'' ''5.0'', blast_line ''OTU2'' ''gi|2'' ''2.0'',
      blast_line ''OTU1'' ''gi|3'' ''1.0''] 2 (1 / 10)
   = Inr [(''OTU2'', ''gi|2'', 2), (''OTU1'', ''gi|1'', 5)] \<and>
   (0::int) \<le> 2 \<and>
   int (length [(''OTU2'', ''gi|2'', 2 :: real), (''OTU1'', ''gi|1'', 5)]) \<le> 2 \<and>
   percent_identity_of (''OTU2'', ''gi|2'', 2) / 100 \<le> 1 / 10 \<and>
   percent_identity_of (''OTU1'', ''gi|1'', 5) / 100 \<le> 1 / 10"
  using top_n_size_and_threshold [OF example_hits] example_hits by simp

text \<open>
  C1, counterexample to the claim as stated ("for every maximum result count N, at most
  N results"): with \<open>top_n = - 1\<close> and two qualifying hits, \<^verbatim>\<open>sorted(...)[:-1]\<close> is
  the one hit with the lower percent identity, and one result is more than \<open>- 1\<close>.
\<close>

theorem top_n_negative_n_counterexample:
  "get_top_n_blast_results decimal_float
     [blast_line ''OTU1'' ''gi|1'' ''5.0'', blast_line ''OTU2'' ''gi|2'' ''2.0''] (- 1) (1 / 10)
   = Inr [(''OTU2'', ''gi|2'', 2)] \<and>
   \<not> int (length [(''OTU2'', ''gi|2'', 2 :: real)]) \<le> - 1"
  by (simp add: top_n_eval)

text \<open>C2, witness: the example of the specification.\<close>

theorem top_n_distinct_and_sorted_witness:
  "get_top_n_blast_results decimal_float
     [blast_line ''OTU1'' ''gi|1'' ''5.0'', blast_line ''OTU2'' ''gi|2'' ''2.0'',
      blast_line ''OTU1'' ''gi|3'' ''1.0''] 2 (1 / 10)
   = Inr [(''OTU2'', ''gi|2'', 2), (''OTU1'', ''gi|1'', 5)] \<and>
   distinct (map otu_id_of [(''OTU2'', ''gi|2'', 2), (''OTU1'', ''gi|1'', 5)]) \<and>
   sorted (map percent_identity_of [(''OTU2'', ''gi|2'', 2), (''OTU1'', ''gi|1'', 5)])"
  using top_n_distinct_and_sorted [OF example_hits] example_hits by simp

text \<open>
  C3, failing input. The claim ("retains only the first occurrence in input order and
  discards every later occurrence") and the comment of lines 249-250 of the source
  ("Skip otus that are too similar to their subject, and skip duplicate query hits")
  agree, and the code departs from both. The first line for \<^verbatim>\<open>OTU1\<close> has 50 percent
  identity, above the threshold 0.1. It is dropped, but \<open>seen_otus\<close> is assigned only
  where a hit is appended (line 254, inside the test of lines 251-252), so the
  identifier is not recorded as seen, and the later line for \<^verbatim>\<open>OTU1\<close> is returned. With
  duplicate query hits skipped, the result would be empty.
\<close>

theorem first_occurrence_counterexample:
  "get_top_n_blast_results decimal_float
     [blast_line ''OTU1'' ''gi|1'' ''50.0'', blast_line ''OTU1'' ''gi|3'' ''1.0''] 2 (1 / 10)
   = Inr [(''OTU1'', ''gi|3'', 1)]"
  by (simp add: top_n_eval)

text \<open>
  Claim C3, the behaviour of the code. When the selector returns, its result is the
  slice \<^verbatim>\<open>[:top_n]\<close> of a list, sorted by percent identity, that holds exactly the first
  qualifying occurrences and no query identifier twice. So every returned hit is the
  first occurrence, in input order, among the lines for its query identifier that pass
  the threshold test, whatever the percent identities of the later lines for that
  identifier; and no other returned hit has its identifier. This is the first
  occurrence in input order, as the claim has it, only for an identifier whose first
  line passes the threshold test: a line that fails the test does not mark its
  identifier as seen, which is where the code departs from its comment.
\<close>

theorem top_n_first_qualifying_occurrence:
  assumes "get_top_n_blast_results to_float ls top_n thr = Inr hits"
  shows "(\<exists>kept. (\<forall>h. h \<in> set kept \<longleftrightarrow> first_qualifying to_float thr ls h) \<and>
            distinct (map otu_id_of kept) \<and>
            hits = slice_to top_n (sort_key percent_identity_of kept)) \<and>
         (\<forall>h \<in> set hits. first_qualifying to_float thr ls h \<and>
            (\<forall>h' \<in> set hits. otu_id_of h' = otu_id_of h \<longrightarrow> h' = h))"
proof -
  from assms obtain result where loop: "top_n_loop to_float thr ls [] Map.empty = Inr result"
    and hits: "hits = slice_to top_n (sort_key percent_identity_of result)"
    by (rule get_top_n_blast_results_Inr)
  have fq: "\<forall>h. h \<in> set result \<longleftrightarrow> first_qualifying to_float thr ls h"
    using top_n_loop_first_qualifying [OF loop] by blast
  have d: "distinct (map otu_id_of result)"
    using top_n_loop_distinct [OF loop] by simp
  have sub: "set hits \<subseteq> set result"
    using hits set_slice_to [of top_n "sort_key percent_identity_of result"] by simp
  have "distinct (map otu_id_of hits)"
    using top_n_distinct_hits [OF assms] .
  then have inj: "inj_on otu_id_of (set hits)" by (simp add: distinct_map)
  have "first_qualifying to_float thr ls h \<and>
        (\<forall>h' \<in> set hits. otu_id_of h' = otu_id_of h \<longrightarrow> h' = h)"
    if "h \<in> set hits" for h
    using that sub fq inj_onD [OF inj] by blast
  with fq d hits show ?thesis by blast
qed

text \<open>C3, witness: the example of the claim, where the first line for each identifier
  passes the threshold test, so that the code and the claim agree. The result is
  \<^verbatim>\<open>[("OTU2","gi|2",2.0), ("OTU1","gi|1",5.0)]\<close>: the hit returned for \<^verbatim>\<open>OTU1\<close>
  is the one of the first line, which is the first qualifying occurrence; the hit
  of the third line, with the lower percent identity, is not.\<close>

theorem top_n_first_qualifying_occurrence_witness:
  "get_top_n_blast_results decimal_float
     [blast_line ''OTU1'' ''gi|1'' ''5.0'', blast_line ''OTU2'' ''gi|2'' ''2.0'',
      blast_line ''OTU1'' ''gi|3'' ''1.0''] 2 (1 / 10)
   = Inr [(''OTU2'', ''gi|2'', 2), (''OTU1'', ''gi|1'', 5)] \<and>
   first_qualifying decimal_float (1 / 10)
     [blast_line ''OTU1'' ''gi|1'' ''5.0'', blast_line ''OTU2'' ''gi|2'' ''2.0'',
      blast_line ''OTU1'' ''gi|3'' ''1.0''] (''OTU1'', ''gi|1'', 5) \<and>
   first_qualifying decimal_float (1 / 10)
     [blast_line ''OTU1'' ''gi|1'' ''5.0'', blast_line ''OTU2'' ''gi|2'' ''2.0'',
      blast_line ''OTU1'' ''gi|3'' ''1.0''] (''OTU2'', ''gi|2'', 2) \<and>
   \<not> first_qualifying decimal_float (1 / 10)
     [blast_line ''OTU1'' ''gi|1'' ''5.0'', blast_line ''OTU2'' ''gi|2'' ''2.0'',
      blast_line ''OTU1'' ''gi|3'' ''1.0''] (''OTU1'', ''gi|3'', 1)"
  using top_n_first_qualifying_occurrence [OF example_hits] example_hits
  by (simp add: top_n_eval)

subsection \<open>Skipped lines and malformed lines\<close>

lemma split_sep_nonempty: "split_sep c s \<noteq> []"
  by (induction s) (auto split: list.splits)

lemma unpack3_short: "length xs < 3 \<Longrightarrow> isl (unpack3 (slice_to 3 xs))"
  by (cases xs rule: unpack3.cases) (auto simp: slice_to_def)

lemma unpack3_long:
  "3 \<le> length xs \<Longrightarrow> unpack3 (slice_to 3 xs) = Inr (xs ! 0, xs ! 1, xs ! 2)"
  by (cases xs rule: unpack3.cases) (auto simp: slice_to_def)

lemma parse_blast_line_skipped:
  "strip l = [] \<or> startswith (strip l) ''#'' \<Longrightarrow> parse_blast_line to_float l = Inr None"
  by (auto simp: parse_blast_line_def)

lemma parse_blast_line_malformed:
  assumes "strip l \<noteq> []" and "\<not> startswith (strip l) ''#''"
    and "length (split_sep (CHR 0x09) (strip l)) < 3 \<or>
         isl (to_float (split_sep (CHR 0x09) (strip l) ! 2))"
  shows "isl (parse_blast_line to_float l)"
proof (cases "length (split_sep (CHR 0x09) (strip l)) < 3")
  case True
  from unpack3_short [OF this] assms(1,2) show ?thesis
    by (auto simp: parse_blast_line_def Let_def split: sum.splits)
next
  case False
  then have "3 \<le> length (split_sep (CHR 0x09) (strip l))" by simp
  from unpack3_long [OF this] assms False show ?thesis
    by (auto simp: parse_blast_line_def Let_def split: sum.splits)
qed

lemma top_n_loop_skip:
  "parse_blast_line to_float l = Inr None \<Longrightarrow>
   top_n_loop to_float thr (pre @ l # post) res seen = top_n_loop to_float thr (pre @ post) res seen"
  by (induction pre arbitrary: res seen) (auto split: sum.splits option.splits)

lemma top_n_loop_raises:
  "l \<in> set ls \<Longrightarrow> isl (parse_blast_line to_float l) \<Longrightarrow> isl (top_n_loop to_float thr ls res seen)"
  using top_n_loop_error [of to_float thr ls res seen _ l]
  by (cases "top_n_loop to_float thr ls res seen") auto

text \<open>
  C6, counterexample to the claim as stated ("a malformed line is skipped silently"): a
  first line with two tab-separated fields raises the \<^verbatim>\<open>ValueError\<close> of the tuple
  unpacking, and the well-formed second line is never read.
\<close>

theorem malformed_line_counterexample:
  "get_top_n_blast_results decimal_float
     [''OTU1'' @ [CHR 0x09] @ ''gi|1'' @ [CHR 0x0A], blast_line ''OTU2'' ''gi|2'' ''2.0''] 2 (1 / 10)
   = Inl (ValueError ''need more than 2 values to unpack'')"
  by (simp add: top_n_eval)

text \<open>
  Claim C6, as amended. A line that is empty after \<^verbatim>\<open>strip()\<close> or starts with
  \<^verbatim>\<open>#\<close> is skipped: the selector returns what it returns without that line. A line
  that is neither, and has fewer than three tab-separated fields or a third field that
  \<^verbatim>\<open>float\<close> rejects, is not skipped: the selector raises, whatever the other lines
  are.
\<close>

theorem skipped_and_malformed_lines:
  "(strip l = [] \<or> startswith (strip l) ''#'' \<longrightarrow>
      get_top_n_blast_results to_float (pre @ l # post) top_n thr =
      get_top_n_blast_results to_float (pre @ post) top_n thr) \<and>
   (strip l \<noteq> [] \<and> \<not> startswith (strip l) ''#'' \<and>
      (length (split_sep (CHR 0x09) (strip l)) < 3 \<or>
       isl (to_float (split_sep (CHR 0x09) (strip l) ! 2))) \<longrightarrow>
      isl (get_top_n_blast_results to_float (pre @ l # post) top_n thr))"
proof (intro conjI impI)
  assume "strip l = [] \<or> startswith (strip l) ''#''"
  then have "parse_blast_line to_float l = Inr None" by (rule parse_blast_line_skipped)
  then show "get_top_n_blast_results to_float (pre @ l # post) top_n thr =
      get_top_n_blast_results to_float (pre @ post) top_n thr"
    by (simp add: get_top_n_blast_results_def top_n_loop_skip)
next
  assume a: "strip l \<noteq> [] \<and> \<not> startswith (strip l) ''#'' \<and>
      (length (split_sep (CHR 0x09) (strip l)) < 3 \<or>
       isl (to_float (split_sep (CHR 0x09) (strip l) ! 2)))"
  then have "isl (parse_blast_line to_float l)" by (simp add: parse_blast_line_malformed)
  then have "isl (top_n_loop to_float thr (pre @ l # post) [] Map.empty)"
    by (intro top_n_loop_raises [of l]) simp_all
  then show "isl (get_top_n_blast_results to_float (pre @ l # post) top_n thr)"
    by (auto simp: get_top_n_blast_results_def split: sum.splits)
qed

text \<open>C6, witness: a comment line between two hits changes nothing; a line whose third
  field is \<^verbatim>\<open>abc\<close> makes the selector raise.\<close>

theorem skipped_and_malformed_lines_witness:
  "startswith (strip ''# BLASTN 2.2.22'') ''#'' \<and>
   get_top_n_blast_results decimal_float
     ([blast_line ''OTU1'' ''gi|1'' ''5.0''] @ ''# BLASTN 2.2.22'' # [blast_line ''OTU2'' ''gi|2'' ''2.0''])
     2 (1 / 10) =
   get_top_n_blast_results decimal_float
     ([blast_line ''OTU1'' ''gi|1'' ''5.0''] @ [blast_line ''OTU2'' ''gi|2'' ''2.0'']) 2 (1 / 10) \<and>
   strip (blast_line ''OTU3'' ''gi|3'' ''abc'') \<noteq> [] \<and>
   \<not> startswith (strip (blast_line ''OTU3'' ''gi|3'' ''abc'')) ''#'' \<and>
   isl (decimal_float (split_sep (CHR 0x09) (strip (blast_line ''OTU3'' ''gi|3'' ''abc'')) ! 2)) \<and>
   isl (get_top_n_blast_results decimal_float
     ([blast_line ''OTU1'' ''gi|1'' ''5.0''] @ blast_line ''OTU3'' ''gi|3'' ''abc'' #
      [blast_line ''OTU2'' ''gi|2'' ''2.0'']) 2 (1 / 10))"
proof -
  have c: "startswith (strip ''# BLASTN 2.2.22'') ''#''"
    by (simp add: strip_def is_space_def startswith_def)
  have m: "strip (blast_line ''OTU3'' ''gi|3'' ''abc'') \<noteq> [] \<and>
     \<not> startswith (strip (blast_line ''OTU3'' ''gi|3'' ''abc'')) ''#'' \<and>
     isl (decimal_float (split_sep (CHR 0x09) (strip (blast_line ''OTU3'' ''gi|3'' ''abc'')) ! 2))"
    by (simp add: top_n_eval)
  from skipped_and_malformed_lines [of "''# BLASTN 2.2.22''" decimal_float
      "[blast_line ''OTU1'' ''gi|1'' ''5.0'']" "[blast_line ''OTU2'' ''gi|2'' ''2.0'']" 2 "1 / 10"] c
  have 1: "get_top_n_blast_results decimal_float
     ([blast_line ''OTU1'' ''gi|1'' ''5.0''] @ ''# BLASTN 2.2.22'' # [blast_line ''OTU2'' ''gi|2'' ''2.0''])
     2 (1 / 10) =
   get_top_n_blast_results decimal_float
     ([blast_line ''OTU1'' ''gi|1'' ''5.0''] @ [blast_line ''OTU2'' ''gi|2'' ''2.0'']) 2 (1 / 10)"
    by blast
  from skipped_and_malformed_lines [of "blast_line ''OTU3'' ''gi|3'' ''abc''" decimal_float
      "[blast_line ''OTU1'' ''gi|1'' ''5.0'']" "[blast_line ''OTU2'' ''gi|2'' ''2.0'']" 2 "1 / 10"] m
  have 2: "isl (get_top_n_blast_results decimal_float
     ([blast_line ''OTU1'' ''gi|1'' ''5.0''] @ blast_line ''OTU3'' ''gi|3'' ''abc'' #
      [blast_line ''OTU2'' ''gi|2'' ''2.0'']) 2 (1 / 10))"
    by blast
  from c m 1 2 show ?thesis by blast
qed

section \<open>Properties of the abundance summarizer\<close>

text \<open>The definitions that a call on concrete lists unfolds, and the two percentages of
  the examples.\<close>

lemma format_2f_75: "format_2f 75 = ''75.00''"
  by (simp add: format_2f_def round_half_even_def Let_def str_nat.simps digit_char_def)

lemma format_2f_25: "format_2f 25 = ''25.00''"
  by (simp add: format_2f_def round_half_even_def Let_def str_nat.simps digit_char_def)

lemmas pie_eval = format_pie_chart_data_def sorted_reverse_def slice_to_def cycle_next_def
  true_div_def format_2f_75 format_2f_25

subsection \<open>The comprehensions and the sort\<close>

lemma upt_0_Suc: "[0..<Suc n] = 0 # map Suc [0..<n]"
  by (simp add: upt_conv_Cons map_Suc_upt del: upt_Suc)

lemma zip_colors_Inr:
  "palette \<noteq> [] \<Longrightarrow>
   zip_colors palette k xs =
   Inr (map (\<lambda>i. (fst (xs ! i), snd (xs ! i), palette ! ((k + i) mod length palette)))
          [0..<length xs])"
proof (induction xs arbitrary: k)
  case Nil
  then show ?case by simp
next
  case (Cons x xs)
  obtain v l where x: "x = (v, l)" by (cases x)
  have "zip_colors palette (Suc k) xs =
     Inr (map (\<lambda>i. (fst (xs ! i), snd (xs ! i), palette ! ((Suc k + i) mod length palette)))
          [0..<length xs])"
    using Cons.IH [OF Cons.prems] .
  then show ?case
    using Cons.prems by (simp add: x cycle_next_def upt_0_Suc comp_def del: upt_Suc)
qed

lemma zip_colors_empty_palette:
  "xs \<noteq> [] \<Longrightarrow> zip_colors [] k xs = Inl StopIteration"
  by (cases xs) (auto simp: cycle_next_def)

lemma zip_colors_zip:
  assumes "palette \<noteq> []" and "length labels = length data"
  shows "zip_colors palette 0 (zip data labels) =
     Inr (map (\<lambda>i. (data ! i, labels ! i, palette ! (i mod length palette))) [0..<length data])"
  using assms by (simp add: zip_colors_Inr)

lemma insort_key_map:
  "insort_key f (g x) (map g xs) = map g (insort_key (\<lambda>y. f (g y)) x xs)"
  by (induction xs) auto

lemma sort_key_map: "sort_key f (map g xs) = map g (sort_key (\<lambda>y. f (g y)) xs)"
  by (induction xs) (auto simp: insort_key_map)

lemma sorted_reverse_map:
  "sorted_reverse f (map g xs) = map g (sorted_reverse (\<lambda>y. f (g y)) xs)"
  by (simp add: sorted_reverse_def rev_map sort_key_map)

lemma slice_to_map: "slice_to n (map g xs) = map g (slice_to n xs)"
  by (simp add: slice_to_def take_map)

lemma normalize_counts_nonzero:
  "total_count \<noteq> 0 \<Longrightarrow>
   normalize_counts total_count xs =
   Inr (map (\<lambda>e. (of_int (fst e) / of_int total_count, fst (snd e), snd (snd e))) xs)"
  by (induction xs) (auto simp: true_div_def)

lemma normalize_counts_zero:
  "xs \<noteq> [] \<Longrightarrow> normalize_counts 0 xs = Inl ZeroDivisionError"
  by (cases xs) (auto simp: true_div_def)

lemma map_sort_key: "map f (sort_key f xs) = sort (map f xs)"
proof -
  have "mset (map f (sort_key f xs)) = mset (map f xs)" by simp
  moreover have "sorted (map f (sort_key f xs))" by (rule sorted_sort_key)
  ultimately show ?thesis by (rule properties_for_sort [symmetric])
qed

lemma sort_rev: "sort (rev xs) = sort xs"
  by (rule properties_for_sort) simp_all

lemma map_sorted_reverse: "map f (sorted_reverse f xs) = rev (sort (map f xs))"
  by (simp add: sorted_reverse_def rev_map [symmetric] map_sort_key sort_rev del: rev_map)

text \<open>The counts at the kept positions are the largest counts, in descending order.\<close>

lemma kept_positions_counts:
  "map (\<lambda>i. data ! i) (kept_positions data max_count) = slice_to max_count (rev (sort data))"
  by (simp add: kept_positions_def slice_to_map [symmetric] map_sorted_reverse map_nth)

lemma set_kept_positions: "set (kept_positions data max_count) \<subseteq> {..<length data}"
proof -
  have "set (kept_positions data max_count) \<subseteq> set (sorted_reverse (\<lambda>i. data ! i) [0..<length data])"
    unfolding kept_positions_def by (rule set_slice_to)
  then show ?thesis by (auto simp: sorted_reverse_def)
qed

lemma distinct_kept_positions: "distinct (kept_positions data max_count)"
proof -
  obtain k where "kept_positions data max_count = take k (sorted_reverse (\<lambda>i. data ! i) [0..<length data])"
    unfolding kept_positions_def using slice_to_take by blast
  then show ?thesis by (simp add: sorted_reverse_def)
qed

text \<open>The three sequences of a call that returns kept groups, in closed form.\<close>

lemma format_pie_chart_data_Inr:
  assumes "length labels = length data" and "palette \<noteq> []"
    and "(\<Sum>i\<leftarrow>kept_positions data max_count. data ! i) \<noteq> 0"
  shows "format_pie_chart_data palette labels data max_count =
     Inr (map (\<lambda>i. of_int (data ! i) / of_int (\<Sum>i\<leftarrow>kept_positions data max_count. data ! i))
            (kept_positions data max_count),
          map (\<lambda>i. labels ! i @ '' ('' @
                 format_2f (of_int (data ! i) /
                   of_int (\<Sum>i\<leftarrow>kept_positions data max_count. data ! i) * 100) @ ''%)'')
            (kept_positions data max_count),
          map (\<lambda>i. palette ! (i mod length palette)) (kept_positions data max_count))"
proof -
  let ?g = "\<lambda>i. (data ! i, labels ! i, palette ! (i mod length palette))"
  have g: "(\<lambda>y. fst (?g y)) = (\<lambda>i. data ! i)" by (simp add: fun_eq_iff)
  have r1: "slice_to max_count (sorted_reverse fst (map ?g [0..<length data])) =
      map ?g (kept_positions data max_count)"
    by (simp only: sorted_reverse_map slice_to_map g kept_positions_def)
  have tot: "sum_list (map fst (map ?g (kept_positions data max_count))) =
      (\<Sum>i\<leftarrow>kept_positions data max_count. data ! i)"
    by (simp add: comp_def)
  show ?thesis
    unfolding format_pie_chart_data_def
    using assms
    by (simp only: zip_colors_zip [OF assms(2,1)] r1 tot Let_def
        normalize_counts_nonzero [OF assms(3)] if_False not_not refl sum.case)
      (simp add: comp_def)
qed

subsection \<open>The outcomes of a call\<close>

lemma format_pie_chart_data_mismatch:
  "length labels \<noteq> length data \<Longrightarrow>
   format_pie_chart_data palette labels data max_count =
   Inl (ValueError ''The number of labels does not match the number of counts.'')"
  by (simp add: format_pie_chart_data_def)

lemma format_pie_chart_data_empty_palette:
  "length labels = length data \<Longrightarrow> data \<noteq> [] \<Longrightarrow>
   format_pie_chart_data [] labels data max_count = Inl StopIteration"
proof -
  assume a: "length labels = length data" "data \<noteq> []"
  then have "zip data labels \<noteq> []" by (cases data; cases labels) auto
  from zip_colors_empty_palette [OF this] a show ?thesis
    by (simp add: format_pie_chart_data_def)
qed

lemma kept_positions_Nil [simp]: "kept_positions [] max_count = []"
  by (simp add: kept_positions_def slice_to_def sorted_reverse_def)

lemma format_pie_chart_data_no_data:
  "format_pie_chart_data palette [] [] max_count = Inr ([], [], [])"
  by (simp add: format_pie_chart_data_def slice_to_def sorted_reverse_def)

lemma format_pie_chart_data_kept:
  assumes "length labels = length data" and "palette \<noteq> []"
  shows "format_pie_chart_data palette labels data max_count =
     (case normalize_counts (\<Sum>i\<leftarrow>kept_positions data max_count. data ! i)
             (map (\<lambda>i. (data ! i, labels ! i, palette ! (i mod length palette)))
                (kept_positions data max_count)) of
        Inl e \<Rightarrow> Inl e
      | Inr result \<Rightarrow>
          Inr (map fst result,
               map (\<lambda>e. fst (snd e) @ '' ('' @ format_2f (fst e * 100) @ ''%)'') result,
               map (\<lambda>e. snd (snd e)) result))"
proof -
  let ?g = "\<lambda>i. (data ! i, labels ! i, palette ! (i mod length palette))"
  have g: "(\<lambda>y. fst (?g y)) = (\<lambda>i. data ! i)" by (simp add: fun_eq_iff)
  have r1: "slice_to max_count (sorted_reverse fst (map ?g [0..<length data])) =
      map ?g (kept_positions data max_count)"
    by (simp only: sorted_reverse_map slice_to_map g kept_positions_def)
  have tot: "sum_list (map fst (map ?g (kept_positions data max_count))) =
      (\<Sum>i\<leftarrow>kept_positions data max_count. data ! i)"
    by (simp add: comp_def)
  show ?thesis
    unfolding format_pie_chart_data_def
    using assms
    by (simp only: zip_colors_zip [OF assms(2,1)] r1 tot Let_def if_False not_not refl sum.case)
      simp
qed

lemma format_pie_chart_data_none_kept:
  assumes "length labels = length data" and "palette \<noteq> []"
    and "kept_positions data max_count = []"
  shows "format_pie_chart_data palette labels data max_count = Inr ([], [], [])"
  by (simp add: format_pie_chart_data_kept [OF assms(1,2)] assms(3))

lemma format_pie_chart_data_zero:
  assumes "length labels = length data" and "palette \<noteq> []"
    and "kept_positions data max_count \<noteq> []"
    and "(\<Sum>i\<leftarrow>kept_positions data max_count. data ! i) = 0"
  shows "format_pie_chart_data palette labels data max_count = Inl ZeroDivisionError"
proof -
  have "map (\<lambda>i. (data ! i, labels ! i, palette ! (i mod length palette)))
                (kept_positions data max_count) \<noteq> []"
    using assms(3) by simp
  from normalize_counts_zero [OF this] show ?thesis
    by (simp add: format_pie_chart_data_kept [OF assms(1,2)] assms(4))
qed

text \<open>All outcomes of a call.\<close>

lemma format_pie_chart_data_cases:
  obtains (mismatch) "length labels \<noteq> length data"
      and "format_pie_chart_data palette labels data max_count =
           Inl (ValueError ''The number of labels does not match the number of counts.'')"
  | (stop) "length labels = length data" and "palette = []" and "data \<noteq> []"
      and "format_pie_chart_data palette labels data max_count = Inl StopIteration"
  | (none) "length labels = length data" and "kept_positions data max_count = []"
      and "format_pie_chart_data palette labels data max_count = Inr ([], [], [])"
  | (zero) "length labels = length data" and "palette \<noteq> []"
      and "kept_positions data max_count \<noteq> []"
      and "(\<Sum>i\<leftarrow>kept_positions data max_count. data ! i) = 0"
      and "format_pie_chart_data palette labels data max_count = Inl ZeroDivisionError"
  | (ok) "length labels = length data" and "palette \<noteq> []"
      and "(\<Sum>i\<leftarrow>kept_positions data max_count. data ! i) \<noteq> 0"
      and "format_pie_chart_data palette labels data max_count =
     Inr (map (\<lambda>i. of_int (data ! i) / of_int (\<Sum>i\<leftarrow>kept_positions data max_count. data ! i))
            (kept_positions data max_count),
          map (\<lambda>i. labels ! i @ '' ('' @
                 format_2f (of_int (data ! i) /
                   of_int (\<Sum>i\<leftarrow>kept_positions data max_count. data ! i) * 100) @ ''%)'')
            (kept_positions data max_count),
          map (\<lambda>i. palette ! (i mod length palette)) (kept_positions data max_count))"
proof (cases "length labels = length data")
  case False
  then show ?thesis using mismatch format_pie_chart_data_mismatch by blast
next
  case len: True
  show ?thesis
  proof (cases "palette = []")
    case True
    show ?thesis
    proof (cases "data = []")
      case True
      with len have "labels = []" by simp
      with True none [OF len] show ?thesis
        by (simp add: format_pie_chart_data_no_data)
    next
      case False
      with stop [OF len \<open>palette = []\<close>] format_pie_chart_data_empty_palette [OF len] \<open>palette = []\<close>
      show ?thesis by blast
    qed
  next
    case pal: False
    show ?thesis
    proof (cases "kept_positions data max_count = []")
      case True
      with none [OF len] format_pie_chart_data_none_kept [OF len pal] show ?thesis by blast
    next
      case ne: False
      show ?thesis
      proof (cases "(\<Sum>i\<leftarrow>kept_positions data max_count. data ! i) = 0")
        case True
        with zero [OF len pal ne] format_pie_chart_data_zero [OF len pal ne] show ?thesis by blast
      next
        case False
        with ok [OF len pal] format_pie_chart_data_Inr [OF len pal] show ?thesis by blast
      qed
    qed
  qed
qed

subsection \<open>The claims about the summarizer\<close>

lemma sum_list_fractions:
  fixes c :: int
  assumes "sum_list (map f xs) = c" and "c \<noteq> 0"
  shows "(\<Sum>i\<leftarrow>xs. (of_int (f i) :: real) / of_int c) = 1"
proof -
  have "(\<Sum>i\<leftarrow>xs. (of_int (f i) :: real) / of_int c) = (\<Sum>i\<leftarrow>xs. of_int (f i) * inverse (of_int c))"
    by (simp add: divide_inverse)
  also have "\<dots> = (\<Sum>i\<leftarrow>xs. of_int (f i)) * inverse (of_int c)"
    by (simp add: sum_list_mult_const)
  also have "(\<Sum>i\<leftarrow>xs. (of_int (f i) :: real)) = of_int (sum_list (map f xs))"
    by (simp add: sum_list_of_int [symmetric] comp_def)
  finally show ?thesis using assms by simp
qed

lemma length_kept_positions:
  "0 \<le> max_count \<Longrightarrow> int (length (kept_positions data max_count)) \<le> max_count"
  unfolding kept_positions_def by (rule length_slice_to)

text \<open>
  Claim C4, as amended. For labels and counts of equal length, a palette that is not
  empty and kept counts whose sum is not zero, the summarizer returns three sequences
  of equal length. The kept counts are the counts of \<open>slice_to max_count\<close> of the
  counts in descending order (the \<open>max_count\<close> largest when \<open>0 \<le> max_count\<close>); each
  fraction is a kept count divided by the sum of the kept counts, each label is the
  name of the group followed by the fraction as a percentage with two decimals, the
  fractions sum to 1, and there are at most \<open>max_count\<close> of them when \<open>max_count\<close> is
  not negative.
\<close>

theorem pie_chart_fractions_of_kept_counts:
  assumes "length labels = length data" and "palette \<noteq> []"
    and "(\<Sum>i\<leftarrow>kept_positions data max_count. data ! i) \<noteq> 0"
  shows "\<exists>fractions labels' colors.
     format_pie_chart_data palette labels data max_count = Inr (fractions, labels', colors) \<and>
     map (\<lambda>i. data ! i) (kept_positions data max_count) = slice_to max_count (rev (sort data)) \<and>
     fractions =
       map (\<lambda>i. of_int (data ! i) / of_int (\<Sum>i\<leftarrow>kept_positions data max_count. data ! i))
         (kept_positions data max_count) \<and>
     labels' =
       map (\<lambda>i. labels ! i @ '' ('' @
              format_2f (of_int (data ! i) /
                of_int (\<Sum>i\<leftarrow>kept_positions data max_count. data ! i) * 100) @ ''%)'')
         (kept_positions data max_count) \<and>
     sum_list fractions = 1 \<and>
     length labels' = length fractions \<and> length colors = length fractions \<and>
     (0 \<le> max_count \<longrightarrow> int (length fractions) \<le> max_count)"
proof -
  let ?ps = "kept_positions data max_count"
  let ?tot = "\<Sum>i\<leftarrow>?ps. data ! i"
  let ?fr = "map (\<lambda>i. (of_int (data ! i) :: real) / of_int ?tot) ?ps"
  have "sum_list ?fr = 1"
    using sum_list_fractions [of "\<lambda>i. data ! i" ?ps ?tot] assms(3) by simp
  moreover have "0 \<le> max_count \<longrightarrow> int (length ?fr) \<le> max_count"
    by (simp add: length_kept_positions)
  moreover note format_pie_chart_data_Inr [OF assms] kept_positions_counts [of data max_count]
  ultimately show ?thesis by simp
qed

text \<open>C4, witness: the example of the claim. Labels A, B, C with counts 10, 30, 5 and
  \<open>max_count = 2\<close> give the fractions 0.75 and 0.25 and the labels
  \<^verbatim>\<open>B (75.00%)\<close> and \<^verbatim>\<open>A (25.00%)\<close>.\<close>

theorem pie_chart_fractions_of_kept_counts_witness:
  "length [''A'', ''B'', ''C''] = length [10, 30, 5 :: int] \<and>
   [''#0000ff'', ''#ff0000'', ''#808080''] \<noteq> [] \<and>
   (\<Sum>i\<leftarrow>kept_positions [10, 30, 5] 2. [10, 30, 5 :: int] ! i) \<noteq> 0 \<and>
   format_pie_chart_data [''#0000ff'', ''#ff0000'', ''#808080''] [''A'', ''B'', ''C''] [10, 30, 5] 2 =
     Inr ([3 / 4, 1 / 4], [''B (75.00%)'', ''A (25.00%)''], [''#ff0000'', ''#0000ff'']) \<and>
   sum_list [3 / 4, 1 / 4 :: real] = 1 \<and>
   int (length [3 / 4, 1 / 4 :: real]) \<le> 2"
proof -
  have kp: "kept_positions [10, 30, 5] 2 = [1, 0]"
    by (simp add: kept_positions_def slice_to_def sorted_reverse_def)
  have h: "(\<Sum>i\<leftarrow>kept_positions [10, 30, 5] 2. [10, 30, 5 :: int] ! i) \<noteq> 0"
    by (simp add: kp)
  have ex: "format_pie_chart_data [''#0000ff'', ''#ff0000'', ''#808080''] [''A'', ''B'', ''C''] [10, 30, 5] 2 =
     Inr ([3 / 4, 1 / 4], [''B (75.00%)'', ''A (25.00%)''], [''#ff0000'', ''#0000ff''])"
    by (simp add: pie_eval)
  have len: "length [''A'', ''B'', ''C''] = length [10, 30, 5 :: int]" by simp
  have pal: "[''#0000ff'', ''#ff0000'', ''#808080''] \<noteq> []" by simp
  from pie_chart_fractions_of_kept_counts [OF len pal h]
  obtain fr lb co where r: "format_pie_chart_data [''#0000ff'', ''#ff0000'', ''#808080'']
        [''A'', ''B'', ''C''] [10, 30, 5] 2 = Inr (fr, lb, co)"
    and s: "sum_list fr = 1" and l: "0 \<le> (2 :: int) \<longrightarrow> int (length fr) \<le> 2"
    by blast
  from r ex have fr: "fr = [3 / 4, 1 / 4]" by simp
  from s fr have s': "sum_list [3 / 4, 1 / 4 :: real] = 1" by blast
  from l fr have l': "int (length [3 / 4, 1 / 4 :: real]) \<le> 2" by simp
  from len pal h ex s' l' show ?thesis by blast
qed

text \<open>
  C4, counterexample to the claim as stated ("for every valid input the returned
  fractions sum to 1.0 and the sequences have length at most max_count"): with the counts
  0 and 0 the call raises \<^verbatim>\<open>ZeroDivisionError\<close> and returns no fractions; and with
  \<open>max_count = - 1\<close> the slice \<^verbatim>\<open>[:-1]\<close> keeps two of three groups, more than
  \<open>max_count\<close>.
\<close>

theorem pie_chart_fractions_counterexample:
  "format_pie_chart_data [''#0000ff'', ''#ff0000'', ''#808080''] [''A'', ''B''] [0, 0] 2 =
     Inl ZeroDivisionError \<and>
   format_pie_chart_data [''#0000ff'', ''#ff0000'', ''#808080''] [''A'', ''B'', ''C''] [10, 30, 5] (- 1) =
     Inr ([3 / 4, 1 / 4], [''B (75.00%)'', ''A (25.00%)''], [''#ff0000'', ''#0000ff'']) \<and>
   \<not> int (length [3 / 4, 1 / 4 :: real]) \<le> - 1"
  by (simp add: pie_eval)

text \<open>
  Claim C5. A call raises the \<^verbatim>\<open>ValueError\<close> with the message "The number of labels
  does not match the number of counts." exactly when the labels and the counts have
  different lengths; and it raises no \<^verbatim>\<open>ValueError\<close> with another message.
\<close>

theorem pie_chart_value_error_iff:
  "(format_pie_chart_data palette labels data max_count =
      Inl (ValueError ''The number of labels does not match the number of counts.''))
     = (length labels \<noteq> length data) \<and>
   (\<exists>msg. format_pie_chart_data palette labels data max_count = Inl (ValueError msg))
     = (length labels \<noteq> length data)"
  by (cases palette labels data max_count rule: format_pie_chart_data_cases) auto

text \<open>C5, witness: three labels and two counts raise the error; two labels and two
  counts do not.\<close>

theorem pie_chart_value_error_iff_witness:
  "format_pie_chart_data [''#0000ff'', ''#ff0000''] [''A'', ''B'', ''C''] [10, 30] 2 =
     Inl (ValueError ''The number of labels does not match the number of counts.'') \<and>
   length [''A'', ''B'', ''C''] \<noteq> length [10, 30 :: int] \<and>
   format_pie_chart_data [''#0000ff'', ''#ff0000''] [''A'', ''B''] [10, 30] 2 \<noteq>
     Inl (ValueError ''The number of labels does not match the number of counts.'') \<and>
   length [''A'', ''B''] = length [10, 30 :: int]"
  using pie_chart_value_error_iff [of "[''#0000ff'', ''#ff0000'']" "[''A'', ''B'', ''C'']" "[10, 30]" 2]
    pie_chart_value_error_iff [of "[''#0000ff'', ''#ff0000'']" "[''A'', ''B'']" "[10, 30]" 2]
  by simp

text \<open>
  C9, counterexample to the claim as stated ("including the case of empty labels and
  counts"): with no labels and no counts the kept counts sum to zero, and the call
  returns three empty sequences. The comprehension of line 366 divides once per kept
  group, so without a kept group nothing is divided.
\<close>

theorem pie_chart_empty_counterexample:
  "format_pie_chart_data [''#0000ff'', ''#ff0000'', ''#808080''] [] [] 2 = Inr ([], [], []) \<and>
   sum_list (slice_to 2 (rev (sort ([] :: int list)))) = 0"
  by (simp add: pie_eval)

text \<open>
  Claim C9, as amended. A call raises \<^verbatim>\<open>ZeroDivisionError\<close> exactly when the labels
  and the counts have equal length, the palette is not empty, at least one group is
  kept and the kept counts sum to zero.
\<close>

theorem pie_chart_zero_division_iff:
  "(format_pie_chart_data palette labels data max_count = Inl ZeroDivisionError) =
   (length labels = length data \<and> palette \<noteq> [] \<and> kept_positions data max_count \<noteq> [] \<and>
    (\<Sum>i\<leftarrow>kept_positions data max_count. data ! i) = 0)"
  by (cases palette labels data max_count rule: format_pie_chart_data_cases) auto

text \<open>C9, witness: two groups with the counts 0 and 0, both kept.\<close>

theorem pie_chart_zero_division_iff_witness:
  "format_pie_chart_data [''#0000ff'', ''#ff0000'', ''#808080''] [''A'', ''B''] [0, 0] 2 =
     Inl ZeroDivisionError \<and>
   length [''A'', ''B''] = length [0, 0 :: int] \<and>
   kept_positions [0, 0] 2 = [0, 1] \<and>
   (\<Sum>i\<leftarrow>kept_positions [0, 0] 2. [0, 0 :: int] ! i) = 0"
proof -
  have kp: "kept_positions [0, 0] 2 = [0, 1]"
    by (simp add: kept_positions_def slice_to_def sorted_reverse_def)
  have z: "(\<Sum>i\<leftarrow>kept_positions [0, 0] 2. [0, 0 :: int] ! i) = 0"
    by (simp add: kp)
  from pie_chart_zero_division_iff [of "[''#0000ff'', ''#ff0000'', ''#808080'']" "[''A'', ''B'']"
      "[0, 0]" 2] kp z
  show ?thesis by simp
qed

text \<open>
  Claim C10. The summarizer takes no state from outside: the iterator over the palette
  is made inside the call and starts at the first color, so the three sequences of a
  call that returns are functions of the arguments alone. The color at each rank of the
  result is the palette color at the input position of the group of that rank (modulo
  the length of the palette), not the color at the rank; the fraction and the label
  at that rank are those of the same input position.
\<close>

theorem pie_chart_colors_by_input_position:
  assumes "format_pie_chart_data palette labels data max_count = Inr (fractions, labels', colors)"
  shows "colors = map (\<lambda>i. palette ! (i mod length palette)) (kept_positions data max_count) \<and>
         fractions =
           map (\<lambda>i. of_int (data ! i) / of_int (\<Sum>i\<leftarrow>kept_positions data max_count. data ! i))
             (kept_positions data max_count) \<and>
         labels' =
           map (\<lambda>i. labels ! i @ '' ('' @
                  format_2f (of_int (data ! i) /
                    of_int (\<Sum>i\<leftarrow>kept_positions data max_count. data ! i) * 100) @ ''%)'')
             (kept_positions data max_count)"
  using assms
  by (cases palette labels data max_count rule: format_pie_chart_data_cases) auto

text \<open>C10, witness: in the example of C4 group B is first in the result and has the
  second palette color, the color of its input position 1; group A, at input position
  0, has the first.\<close>

theorem pie_chart_colors_by_input_position_witness:
  "format_pie_chart_data [''#0000ff'', ''#ff0000'', ''#808080''] [''A'', ''B'', ''C''] [10, 30, 5] 2 =
     Inr ([3 / 4, 1 / 4], [''B (75.00%)'', ''A (25.00%)''], [''#ff0000'', ''#0000ff'']) \<and>
   kept_positions [10, 30, 5] 2 = [1, 0] \<and>
   [''#ff0000'', ''#0000ff''] =
     map (\<lambda>i. [''#0000ff'', ''#ff0000'', ''#808080''] ! (i mod length [''#0000ff'', ''#ff0000'', ''#808080'']))
       (kept_positions [10, 30, 5] 2)"
proof -
  have ex: "format_pie_chart_data [''#0000ff'', ''#ff0000'', ''#808080''] [''A'', ''B'', ''C''] [10, 30, 5] 2 =
     Inr ([3 / 4, 1 / 4], [''B (75.00%)'', ''A (25.00%)''], [''#ff0000'', ''#0000ff''])"
    by (simp add: pie_eval)
  have kp: "kept_positions [10, 30, 5] 2 = [1, 0]"
    by (simp add: kept_positions_def slice_to_def sorted_reverse_def)
  from pie_chart_colors_by_input_position [OF ex] ex kp show ?thesis by simp
qed

section \<open>Properties of the report assembler\<close>

subsection \<open>The loop in closed form\<close>

lemma format_results_loop_Cons_cases:
  assumes "format_results_loop sf pal seqs t dir cat supp n k ((otu_id, subject_id, pid) # rest)
             (tsv, html, fasta, pfs, pdfs) = Inr out"
  obtains seq tax gb_id counts plot_data where
    "seqs otu_id = Some seq"
    "if supp then tax = [] else taxonomy t otu_id = Some tax"
    "item (split_sep (CHR ''|'') subject_id) 3 = Inr gb_id"
    "observationData t otu_id = Some counts"
    "format_pie_chart_data pal (SampleIds t) counts n = Inr plot_data"
    "format_results_loop sf pal seqs t dir cat supp n (Suc k) rest
       (tsv @ tsv_row k otu_id seq supp tax gb_id (sf pid),
        html @ html_row k otu_id seq supp tax gb_id (sf pid)
          (path_join (basename (normpath dir)) (''abundance_by_'' @ cat @ ''_'' @ otu_id @ ''.png''))
          (format_legend_html plot_data),
        fasta @ fasta_record otu_id seq,
        pfs @ [path_join dir (''abundance_by_'' @ cat @ ''_'' @ otu_id @ ''.png'')],
        pdfs @ [path_join dir (''abundance_by_'' @ cat @ ''_'' @ otu_id @ ''.p'')]) = Inr out"
  using assms
  by (auto simp: Let_def split: option.splits sum.splits if_splits)

lemma item_Inr: "item xs i = Inr x \<Longrightarrow> x = xs ! i \<and> i < length xs"
  by (auto simp: item_def split: if_splits)

lemma format_results_loop_closed:
  "format_results_loop sf pal seqs t dir cat supp n k hits (tsv, html, fasta, pfs, pdfs) =
     Inr (tsv', html', fasta', pfs', pdfs') \<Longrightarrow>
   tsv' = tsv @ concat (map (tsv_line_of sf seqs t supp) (enumerate k hits)) \<and>
   html' = html @ concat (map (html_line_of sf pal seqs t dir cat supp n) (enumerate k hits)) \<and>
   fasta' = fasta @ concat (map (\<lambda>h. fasta_record (otu_id_of h) (the (seqs (otu_id_of h)))) hits) \<and>
   length pfs' = length pfs + length hits \<and> length pdfs' = length pdfs + length hits"
proof (induction hits arbitrary: k tsv html fasta pfs pdfs)
  case Nil
  then show ?case by simp
next
  case (Cons h hits)
  obtain otu_id subject_id pid where h: "h = (otu_id, subject_id, pid)" by (cases h)
  from Cons.prems [unfolded h] show ?case
  proof (cases rule: format_results_loop_Cons_cases)
    case (1 seq tax gb_id counts plot_data)
    have tax: "(if supp then [] else the (taxonomy t otu_id)) = tax"
      using 1(2) by (auto split: if_splits)
    have gb: "split_sep (CHR ''|'') subject_id ! 3 = gb_id"
      using item_Inr [OF 1(3)] by simp
    from Cons.IH [OF 1(6)] show ?thesis
      by (simp add: h tsv_line_of_def html_line_of_def 1(1,4,5) tax gb)
  qed
qed

subsection \<open>Lines of the table\<close>

lemma line_count_append [simp]: "line_count (a @ b) = line_count a + line_count b"
  by (simp add: line_count_def)

lemma line_count_Nil [simp]: "line_count [] = 0"
  by (simp add: line_count_def)

lemma line_count_Cons [simp]:
  "line_count (c # s) = (if c = CHR 0x0A then 1 else 0) + line_count s"
  by (simp add: line_count_def)

lemma line_count_none: "CHR 0x0A \<notin> set s \<Longrightarrow> line_count s = 0"
  by (induction s) auto

lemma line_count_concat: "line_count (concat rows) = sum_list (map line_count rows)"
  by (induction rows) auto

lemma digit_char_not_newline: "d < 10 \<Longrightarrow> digit_char d \<noteq> CHR 0x0A"
proof -
  assume "d < 10"
  then have "d \<in> {0, 1, 2, 3, 4, 5, 6, 7, 8, 9}" by auto
  then show ?thesis by (auto simp: digit_char_def)
qed

lemma str_nat_no_newline: "CHR 0x0A \<notin> set (str_nat n)"
proof (induction n rule: str_nat.induct)
  case (1 n)
  show ?case
  proof (cases "n < 10")
    case True
    then show ?thesis
      using digit_char_not_newline [of n] by (subst str_nat.simps) auto
  next
    case False
    with "1.IH" have "CHR 0x0A \<notin> set (str_nat (n div 10))" by simp
    moreover have "digit_char (n mod 10) \<noteq> CHR 0x0A" by (simp add: digit_char_not_newline)
    ultimately show ?thesis using False by (subst str_nat.simps) auto
  qed
qed

lemma set_split_sep: "x \<in> set (split_sep c s) \<Longrightarrow> set x \<subseteq> set s"
proof (induction s arbitrary: x)
  case Nil
  then show ?case by simp
next
  case (Cons a s)
  show ?case
  proof (cases "a = c")
    case True
    with Cons show ?thesis by auto
  next
    case False
    obtain f fs where sp: "split_sep c s = f # fs"
      using split_sep_nonempty [of c s] by (cases "split_sep c s") auto
    with False Cons.prems have "x = a # f \<or> x \<in> set fs" by simp
    then show ?thesis
    proof
      assume "x = a # f"
      moreover have "set f \<subseteq> set s" using Cons.IH [of f] sp by simp
      ultimately show ?thesis by auto
    next
      assume "x \<in> set fs"
      then have "set x \<subseteq> set s" using Cons.IH [of x] sp by simp
      then show ?thesis by auto
    qed
  qed
qed

lemma tsv_header_line_count: "line_count (tsv_header suppress) = 1"
  by (simp add: tsv_header_def)

lemma tsv_line_of_line_count:
  assumes "single_line_fields str_float mw_seqs t suppress top_n_mw"
    and "(otu_id, subject_id, pid) \<in> set top_n_mw"
    and "mw_seqs otu_id = Some seq"
    and "suppress \<or> taxonomy t otu_id \<noteq> None"
    and "3 < length (split_sep (CHR ''|'') subject_id)"
  shows "line_count (tsv_line_of str_float mw_seqs t suppress (k, otu_id, subject_id, pid)) = 1"
proof -
  from assms(1,2) have f: "CHR 0x0A \<notin> set otu_id" "CHR 0x0A \<notin> set subject_id"
    "CHR 0x0A \<notin> set (str_float pid)" "CHR 0x0A \<notin> set seq"
    "\<not> suppress \<longrightarrow> CHR 0x0A \<notin> set (the (taxonomy t otu_id))"
    using assms(3,4) by (auto simp: single_line_fields_def)
  have "set (split_sep (CHR ''|'') subject_id ! 3) \<subseteq> set subject_id"
    using assms(5) by (intro set_split_sep [of _ "CHR ''|''"]) simp
  with f(2) have gb: "CHR 0x0A \<notin> set (split_sep (CHR ''|'') subject_id ! 3)" by auto
  show ?thesis
    using f gb
    by (simp add: tsv_line_of_def tsv_row_def assms(3) line_count_none str_nat_no_newline)
qed

text \<open>A loop that returns has found every sequence, every taxonomy it needed and a
  fourth field in every subject identifier.\<close>

lemma format_results_loop_lookups:
  "format_results_loop sf pal seqs t dir cat supp n k hits acc = Inr out \<Longrightarrow>
   (otu_id, subject_id, pid) \<in> set hits \<Longrightarrow>
   seqs otu_id \<noteq> None \<and> (supp \<or> taxonomy t otu_id \<noteq> None) \<and>
   3 < length (split_sep (CHR ''|'') subject_id)"
proof (induction hits arbitrary: k acc)
  case Nil
  then show ?case by simp
next
  case (Cons h hits)
  obtain o' s' p' where h: "h = (o', s', p')" by (cases h)
  obtain tsv html fasta pfs pdfs where acc: "acc = (tsv, html, fasta, pfs, pdfs)"
    by (cases acc)
  from Cons.prems(1) [unfolded h acc] show ?case
  proof (cases rule: format_results_loop_Cons_cases)
    case (1 seq tax gb_id counts plot_data)
    show ?thesis
    proof (cases "(otu_id, subject_id, pid) = h")
      case True
      with h 1(1,2,3) item_Inr [OF 1(3)] show ?thesis by (auto split: if_splits)
    next
      case False
      with Cons.prems(2) have "(otu_id, subject_id, pid) \<in> set hits" by simp
      from Cons.IH [OF 1(6) this] show ?thesis .
    qed
  qed
qed

text \<open>The assembler returns when every lookup succeeds and the summarizer returns for
  every ranked result.\<close>

lemma format_results_loop_returns:
  assumes "\<forall>(otu_id, subject_id, pid) \<in> set hits.
             mw_seqs otu_id \<noteq> None \<and> (suppress \<or> taxonomy t otu_id \<noteq> None) \<and>
             3 < length (split_sep (CHR ''|'') subject_id) \<and>
             (\<exists>counts. observationData t otu_id = Some counts \<and>
                \<not> isl (format_pie_chart_data palette (SampleIds t) counts n))"
  shows "\<exists>out. format_results_loop str_float palette mw_seqs t dir cat suppress n k hits acc = Inr out"
  using assms
proof (induction hits arbitrary: k acc)
  case Nil
  show ?case by (cases acc rule: prod_cases5) simp
next
  case (Cons h hits)
  obtain otu_id subject_id pid where h: "h = (otu_id, subject_id, pid)" by (cases h)
  obtain tsv html fasta pfs pdfs where acc: "acc = (tsv, html, fasta, pfs, pdfs)"
    by (cases acc rule: prod_cases5)
  from Cons.prems h have c: "mw_seqs otu_id \<noteq> None \<and> (suppress \<or> taxonomy t otu_id \<noteq> None) \<and>
             3 < length (split_sep (CHR ''|'') subject_id) \<and>
             (\<exists>counts. observationData t otu_id = Some counts \<and>
                \<not> isl (format_pie_chart_data palette (SampleIds t) counts n))"
    by simp
  then obtain seq where seq: "mw_seqs otu_id = Some seq" by blast
  from c obtain counts where counts: "observationData t otu_id = Some counts"
    and "\<not> isl (format_pie_chart_data palette (SampleIds t) counts n)" by blast
  then obtain plot_data where
    pd: "format_pie_chart_data palette (SampleIds t) counts n = Inr plot_data"
    by (cases "format_pie_chart_data palette (SampleIds t) counts n") simp_all
  from c have gb: "item (split_sep (CHR ''|'') subject_id) 3 =
      Inr (split_sep (CHR ''|'') subject_id ! 3)"
    by (simp add: item_def)
  from Cons.prems have rest: "\<forall>(otu_id, subject_id, pid) \<in> set hits.
             mw_seqs otu_id \<noteq> None \<and> (suppress \<or> taxonomy t otu_id \<noteq> None) \<and>
             3 < length (split_sep (CHR ''|'') subject_id) \<and>
             (\<exists>counts. observationData t otu_id = Some counts \<and>
                \<not> isl (format_pie_chart_data palette (SampleIds t) counts n))"
    by simp
  show ?case
  proof (cases suppress)
    case True
    with Cons.IH [OF rest] show ?thesis
      by (simp add: h acc seq counts pd gb Let_def)
  next
    case False
    with c obtain tax where "taxonomy t otu_id = Some tax" by blast
    with False Cons.IH [OF rest] show ?thesis
      by (simp add: h acc seq counts pd gb Let_def)
  qed
qed

lemma format_top_n_results_table_returns:
  assumes "\<forall>(otu_id, subject_id, pid) \<in> set top_n_mw.
             mw_seqs otu_id \<noteq> None \<and> (suppress \<or> taxonomy t otu_id \<noteq> None) \<and>
             3 < length (split_sep (CHR ''|'') subject_id) \<and>
             (\<exists>counts. observationData t otu_id = Some counts \<and>
                \<not> isl (format_pie_chart_data palette (SampleIds t) counts n))"
  shows "\<exists>out. format_top_n_results_table str_float palette top_n_mw mw_seqs t dir cat suppress n =
           Inr out"
proof -
  from format_results_loop_returns [OF assms]
  obtain out where "format_results_loop str_float palette mw_seqs t dir cat suppress n 0 top_n_mw
      (tsv_header suppress, html_table_header cat suppress, [], [], []) = Inr out"
    by blast
  then show ?thesis
    by (cases out) (auto simp: format_top_n_results_table_def)
qed

subsection \<open>The claim about the assembler\<close>

lemma format_top_n_results_table_closed:
  assumes "format_top_n_results_table str_float palette top_n_mw mw_seqs t output_img_dir
             mapping_category suppress n =
           Inr (tsv_lines, html_lines, mw_fasta_lines, plot_fps, plot_data_fps)"
  shows "tsv_lines = tsv_header suppress @
           concat (map (tsv_line_of str_float mw_seqs t suppress) (enumerate 0 top_n_mw))"
    and "html_lines = html_table_header mapping_category suppress @
           concat (map (html_line_of str_float palette mw_seqs t output_img_dir mapping_category
                          suppress n) (enumerate 0 top_n_mw)) @ ''</table>''"
    and "mw_fasta_lines =
           concat (map (\<lambda>h. fasta_record (otu_id_of h) (the (mw_seqs (otu_id_of h)))) top_n_mw)"
    and "length plot_fps = length top_n_mw" and "length plot_data_fps = length top_n_mw"
    and "\<And>otu_id subject_id pid. (otu_id, subject_id, pid) \<in> set top_n_mw \<Longrightarrow>
           mw_seqs otu_id \<noteq> None \<and> (suppress \<or> taxonomy t otu_id \<noteq> None) \<and>
           3 < length (split_sep (CHR ''|'') subject_id)"
proof -
  from assms obtain html0 where
    loop: "format_results_loop str_float palette mw_seqs t output_img_dir mapping_category
             suppress n 0 top_n_mw
             (tsv_header suppress, html_table_header mapping_category suppress, [], [], []) =
           Inr (tsv_lines, html0, mw_fasta_lines, plot_fps, plot_data_fps)"
    and html: "html_lines = html0 @ ''</table>''"
    by (auto simp: format_top_n_results_table_def split: sum.splits)
  from format_results_loop_closed [OF loop] html
  show "tsv_lines = tsv_header suppress @
           concat (map (tsv_line_of str_float mw_seqs t suppress) (enumerate 0 top_n_mw))"
    and "html_lines = html_table_header mapping_category suppress @
           concat (map (html_line_of str_float palette mw_seqs t output_img_dir mapping_category
                          suppress n) (enumerate 0 top_n_mw)) @ ''</table>''"
    and "mw_fasta_lines =
           concat (map (\<lambda>h. fasta_record (otu_id_of h) (the (mw_seqs (otu_id_of h)))) top_n_mw)"
    and "length plot_fps = length top_n_mw" and "length plot_data_fps = length top_n_mw"
    by simp_all
  show "\<And>otu_id subject_id pid. (otu_id, subject_id, pid) \<in> set top_n_mw \<Longrightarrow>
           mw_seqs otu_id \<noteq> None \<and> (suppress \<or> taxonomy t otu_id \<noteq> None) \<and>
           3 < length (split_sep (CHR ''|'') subject_id)"
    using format_results_loop_lookups [OF loop] by blast
qed

text \<open>
  Claim C7. Whenever the assembler returns: the TSV output is the header followed by
  one row per ranked result, and the HTML output is the table header, one row per
  ranked result and the closing tag; the row at position \<open>k\<close> (from 0) starts with the
  number \<open>k + 1\<close> and the identifier of the ranked result at position \<open>k\<close>, in both
  outputs; the FASTA output is one record per ranked result, in rank order, with the
  sequence that the lookup has for it. If no field holds a newline, every TSV row is
  one line, and the TSV output has one line more than there are ranked results.
\<close>

theorem report_rows_follow_rank_order:
  assumes "format_top_n_results_table str_float palette top_n_mw mw_seqs t output_img_dir
             mapping_category suppress n =
           Inr (tsv_lines, html_lines, mw_fasta_lines, plot_fps, plot_data_fps)"
  shows "\<exists>tsv_rows html_rows.
     length tsv_rows = length top_n_mw \<and> length html_rows = length top_n_mw \<and>
     tsv_lines = tsv_header suppress @ concat tsv_rows \<and>
     html_lines = html_table_header mapping_category suppress @ concat html_rows @ ''</table>'' \<and>
     (\<forall>k < length top_n_mw.
        (\<exists>rest. tsv_rows ! k =
           str_nat (k + 1) @ [CHR 0x09] @ otu_id_of (top_n_mw ! k) @ [CHR 0x09] @ rest @ [CHR 0x0A]) \<and>
        (\<exists>rest. html_rows ! k =
           ''<tr><td>'' @ str_nat (k + 1) @ ''</td><td><pre>&gt;'' @ otu_id_of (top_n_mw ! k) @ rest)) \<and>
     (\<forall>h \<in> set top_n_mw. mw_seqs (otu_id_of h) \<noteq> None) \<and>
     mw_fasta_lines =
       concat (map (\<lambda>h. fasta_record (otu_id_of h) (the (mw_seqs (otu_id_of h)))) top_n_mw) \<and>
     (single_line_fields str_float mw_seqs t suppress top_n_mw \<longrightarrow>
        (\<forall>row \<in> set tsv_rows. line_count row = 1) \<and>
        line_count tsv_lines = length top_n_mw + 1)"
proof -
  let ?tsv = "map (tsv_line_of str_float mw_seqs t suppress) (enumerate 0 top_n_mw)"
  let ?html = "map (html_line_of str_float palette mw_seqs t output_img_dir mapping_category
                      suppress n) (enumerate 0 top_n_mw)"
  note cl = format_top_n_results_table_closed [OF assms]
  have rows: "(\<exists>rest. ?tsv ! k =
           str_nat (k + 1) @ [CHR 0x09] @ otu_id_of (top_n_mw ! k) @ [CHR 0x09] @ rest @ [CHR 0x0A]) \<and>
        (\<exists>rest. ?html ! k =
           ''<tr><td>'' @ str_nat (k + 1) @ ''</td><td><pre>&gt;'' @ otu_id_of (top_n_mw ! k) @ rest)"
    if "k < length top_n_mw" for k
  proof -
    obtain otu_id subject_id pid where h: "top_n_mw ! k = (otu_id, subject_id, pid)"
      by (cases "top_n_mw ! k")
    have e: "enumerate 0 top_n_mw ! k = (k, otu_id, subject_id, pid)"
      using that h by (simp add: nth_enumerate_eq)
    have "\<exists>rest. ?tsv ! k =
           str_nat (k + 1) @ [CHR 0x09] @ otu_id @ [CHR 0x09] @ rest @ [CHR 0x0A]"
      using that by (simp add: e tsv_line_of_def tsv_row_def)
    moreover have "\<exists>rest. ?html ! k =
           ''<tr><td>'' @ str_nat (k + 1) @ ''</td><td><pre>&gt;'' @ otu_id @ rest"
      using that by (simp add: e html_line_of_def html_row_def)
    ultimately show ?thesis by (simp add: h)
  qed
  have seqs: "\<forall>h \<in> set top_n_mw. mw_seqs (otu_id_of h) \<noteq> None"
    using cl(6) by (auto simp: otu_id_of_def)
  have lines: "(\<forall>row \<in> set ?tsv. line_count row = 1) \<and>
        line_count tsv_lines = length top_n_mw + 1"
    if slf: "single_line_fields str_float mw_seqs t suppress top_n_mw"
  proof -
    have one: "line_count row = 1" if "row \<in> set ?tsv" for row
    proof -
      from that obtain k otu_id subject_id pid where
        r: "row = tsv_line_of str_float mw_seqs t suppress (k, otu_id, subject_id, pid)"
        and m: "(otu_id, subject_id, pid) \<in> set top_n_mw"
        by (auto simp: in_set_enumerate_eq) (metis nth_mem)
      from cl(6) [OF m] obtain seq where "mw_seqs otu_id = Some seq"
        and "suppress \<or> taxonomy t otu_id \<noteq> None"
        and "3 < length (split_sep (CHR ''|'') subject_id)" by auto
      from tsv_line_of_line_count [OF slf m this] r show ?thesis by simp
    qed
    then have "map line_count ?tsv = replicate (length top_n_mw) 1"
      by (intro replicate_eqI) auto
    then have "sum_list (map line_count ?tsv) = length top_n_mw"
      by (simp add: sum_list_replicate)
    then have "line_count tsv_lines = length top_n_mw + 1"
      by (simp add: cl(1) line_count_concat tsv_header_line_count)
    with one show ?thesis by blast
  qed
  show ?thesis
    by (rule exI [of _ ?tsv], rule exI [of _ ?html])
       (use cl(1,2,3) rows seqs lines in simp)
qed

subsection \<open>An example report\<close>

lemma pie_soil_water_30_10:
  "format_pie_chart_data [''#0000ff'', ''#ff0000''] [''soil'', ''water''] [30, 10] 2 =
     Inr ([3 / 4, 1 / 4], [''soil (75.00%)'', ''water (25.00%)''], [''#0000ff'', ''#ff0000''])"
  by (simp add: pie_eval)

lemma pie_soil_water_10_30:
  "format_pie_chart_data [''#0000ff'', ''#ff0000''] [''soil'', ''water''] [10, 30] 2 =
     Inr ([3 / 4, 1 / 4], [''water (75.00%)'', ''soil (25.00%)''], [''#ff0000'', ''#0000ff''])"
  by (simp add: pie_eval)

lemma img_dir_name: "basename (normpath ''out/img'') = ''img''"
  by (simp add: basename_def normpath_def startswith_def)

lemma str_float_1_examples: "str_float_1 2 = ''2.0''" "str_float_1 5 = ''5.0''"
  by (simp_all add: str_float_1_def str_nat.simps digit_char_def)

lemma report_example:
  "format_top_n_results_table str_float_1 [''#0000ff'', ''#ff0000'']
     [(''OTU2'', ''gi|22|gb|AB2.1|'', 2), (''OTU1'', ''gi|11|gb|AB1.1|'', 5)]
     [''OTU1'' \<mapsto> ''ACGT'', ''OTU2'' \<mapsto> ''GGCC''] example_table ''out/img'' ''Env'' False 2 =
   Inr (tsv_header False @
          tsv_row 0 ''OTU2'' ''GGCC'' False ''k__Archaea'' ''AB2.1'' ''2.0'' @
          tsv_row 1 ''OTU1'' ''ACGT'' False ''k__Bacteria'' ''AB1.1'' ''5.0'',
        html_table_header ''Env'' False @
          html_row 0 ''OTU2'' ''GGCC'' False ''k__Archaea'' ''AB2.1'' ''2.0''
            ''img/abundance_by_Env_OTU2.png''
            (format_legend_html ([3 / 4, 1 / 4], [''water (75.00%)'', ''soil (25.00%)''],
               [''#ff0000'', ''#0000ff''])) @
          html_row 1 ''OTU1'' ''ACGT'' False ''k__Bacteria'' ''AB1.1'' ''5.0''
            ''img/abundance_by_Env_OTU1.png''
            (format_legend_html ([3 / 4, 1 / 4], [''soil (75.00%)'', ''water (25.00%)''],
               [''#0000ff'', ''#ff0000''])) @
          ''</table>'',
        fasta_record ''OTU2'' ''GGCC'' @ fasta_record ''OTU1'' ''ACGT'',
        [''out/img/abundance_by_Env_OTU2.png'', ''out/img/abundance_by_Env_OTU1.png''],
        [''out/img/abundance_by_Env_OTU2.p'', ''out/img/abundance_by_Env_OTU1.p''])"
  by (simp add: format_top_n_results_table_def example_table_def item_def path_join_def
      startswith_def img_dir_name str_float_1_examples pie_soil_water_30_10 pie_soil_water_10_30
      Let_def)

lemma report_example_tsv:
  "tsv_header False @
     tsv_row 0 ''OTU2'' ''GGCC'' False ''k__Archaea'' ''AB2.1'' ''2.0'' @
     tsv_row 1 ''OTU1'' ''ACGT'' False ''k__Bacteria'' ''AB1.1'' ''5.0'' =
   ''#'' @ [CHR 0x09] @ ''OTU ID'' @ [CHR 0x09] @ ''Sequence'' @ [CHR 0x09] @
     ''Greengenes taxonomy'' @ [CHR 0x09] @ ''NCBI nt closest match'' @ [CHR 0x09] @
     ''NCBI nt % identity'' @ [CHR 0x0A] @
   ''1'' @ [CHR 0x09] @ ''OTU2'' @ [CHR 0x09] @ ''GGCC'' @ [CHR 0x09] @ ''k__Archaea'' @ [CHR 0x09] @
     ''AB2.1'' @ [CHR 0x09] @ ''2.0'' @ [CHR 0x0A] @
   ''2'' @ [CHR 0x09] @ ''OTU1'' @ [CHR 0x09] @ ''ACGT'' @ [CHR 0x09] @ ''k__Bacteria'' @ [CHR 0x09] @
     ''AB1.1'' @ [CHR 0x09] @ ''5.0'' @ [CHR 0x0A]"
  by (simp add: tsv_header_def tsv_row_def str_nat.simps digit_char_def)

lemma report_example_single_line:
  "single_line_fields str_float_1 [''OTU1'' \<mapsto> ''ACGT'', ''OTU2'' \<mapsto> ''GGCC''] example_table False
     [(''OTU2'', ''gi|22|gb|AB2.1|'', 2), (''OTU1'', ''gi|11|gb|AB1.1|'', 5)]"
  by (simp add: single_line_fields_def example_table_def str_float_1_examples)

text \<open>C7, witness: a report of two ranked results. The assembler returns, no field
  holds a newline, and the TSV output has three lines.\<close>

theorem report_rows_follow_rank_order_witness:
  "format_top_n_results_table str_float_1 [''#0000ff'', ''#ff0000'']
     [(''OTU2'', ''gi|22|gb|AB2.1|'', 2), (''OTU1'', ''gi|11|gb|AB1.1|'', 5)]
     [''OTU1'' \<mapsto> ''ACGT'', ''OTU2'' \<mapsto> ''GGCC''] example_table ''out/img'' ''Env'' False 2 =
   Inr (tsv_header False @
          tsv_row 0 ''OTU2'' ''GGCC'' False ''k__Archaea'' ''AB2.1'' ''2.0'' @
          tsv_row 1 ''OTU1'' ''ACGT'' False ''k__Bacteria'' ''AB1.1'' ''5.0'',
        html_table_header ''Env'' False @
          html_row 0 ''OTU2'' ''GGCC'' False ''k__Archaea'' ''AB2.1'' ''2.0''
            ''img/abundance_by_Env_OTU2.png''
            (format_legend_html ([3 / 4, 1 / 4], [''water (75.00%)'', ''soil (25.00%)''],
               [''#ff0000'', ''#0000ff''])) @
          html_row 1 ''OTU1'' ''ACGT'' False ''k__Bacteria'' ''AB1.1'' ''5.0''
            ''img/abundance_by_Env_OTU1.png''
            (format_legend_html ([3 / 4, 1 / 4], [''soil (75.00%)'', ''water (25.00%)''],
               [''#0000ff'', ''#ff0000''])) @
          ''</table>'',
        fasta_record ''OTU2'' ''GGCC'' @ fasta_record ''OTU1'' ''ACGT'',
        [''out/img/abundance_by_Env_OTU2.png'', ''out/img/abundance_by_Env_OTU1.png''],
        [''out/img/abundance_by_Env_OTU2.p'', ''out/img/abundance_by_Env_OTU1.p'']) \<and>
   single_line_fields str_float_1 [''OTU1'' \<mapsto> ''ACGT'', ''OTU2'' \<mapsto> ''GGCC''] example_table False
     [(''OTU2'', ''gi|22|gb|AB2.1|'', 2), (''OTU1'', ''gi|11|gb|AB1.1|'', 5)] \<and>
   line_count
     (tsv_header False @
        tsv_row 0 ''OTU2'' ''GGCC'' False ''k__Archaea'' ''AB2.1'' ''2.0'' @
        tsv_row 1 ''OTU1'' ''ACGT'' False ''k__Bacteria'' ''AB1.1'' ''5.0'') =
   length [(''OTU2'', ''gi|22|gb|AB2.1|'', 2 :: real), (''OTU1'', ''gi|11|gb|AB1.1|'', 5)] + 1"
proof -
  from report_rows_follow_rank_order [OF report_example] report_example_single_line
  have "line_count
     (tsv_header False @
        tsv_row 0 ''OTU2'' ''GGCC'' False ''k__Archaea'' ''AB2.1'' ''2.0'' @
        tsv_row 1 ''OTU1'' ''ACGT'' False ''k__Bacteria'' ''AB1.1'' ''5.0'') =
   length [(''OTU2'', ''gi|22|gb|AB2.1|'', 2 :: real), (''OTU1'', ''gi|11|gb|AB1.1|'', 5)] + 1"
    by blast
  with report_example report_example_single_line show ?thesis by blast
qed

section \<open>Properties of the driver\<close>

text \<open>
  Claim C8. When the output directory exists: without the force flag the driver raises
  the \<^verbatim>\<open>WorkflowError\<close>; with the force flag the failure of \<^verbatim>\<open>makedirs\<close> is
  ignored and the run goes on from the file system as it is. The directory of the
  images is treated likewise: when it exists, the failure is ignored and the file
  system stays as it is.
\<close>

theorem existing_output_dir:
  assumes "output_dir \<in> dirs fs"
  shows
    "generate_most_wanted_list to_float str_float palette run_commands read_rep_set read_otu_table
       fs output_dir mapping_category top_n num_categories_to_plot max_nt_similarity
       suppress_taxonomic_output False =
     Inl (WorkflowError
           (''Output directory '' @ [CHR 0x27] @ output_dir @ [CHR 0x27] @
            '' already exists. Please choose a different directory, or force overwrite with -f.'')) \<and>
     generate_most_wanted_list to_float str_float palette run_commands read_rep_set read_otu_table
       fs output_dir mapping_category top_n num_categories_to_plot max_nt_similarity
       suppress_taxonomic_output True =
     most_wanted_report to_float str_float palette run_commands read_rep_set read_otu_table
       fs output_dir mapping_category top_n num_categories_to_plot max_nt_similarity
       suppress_taxonomic_output \<and>
     (\<forall>fs2. path_join output_dir ''img'' \<in> dirs fs2 \<longrightarrow> make_img_dir fs2 output_dir = Inr fs2)"
  using assms
  by (simp add: generate_most_wanted_list_def make_output_dir_def make_img_dir_def makedirs_def)

subsection \<open>An example run\<close>

lemma example_selection:
  "get_top_n_blast_results decimal_float
     [blast_line ''OTU1'' ''gi|11|gb|AB1.1|'' ''5.0'', blast_line ''OTU2'' ''gi|22|gb|AB2.1|'' ''2.0'']
     2 (1 / 10) =
   Inr [(''OTU2'', ''gi|22|gb|AB2.1|'', 2), (''OTU1'', ''gi|11|gb|AB1.1|'', 5)]"
  by (simp add: top_n_eval)

lemma example_lookup:
  "get_rep_set_lookup [(''OTU1 first'', ''ACGT''), (''OTU2'', ''GGCC'')] =
   Inr [''OTU1'' \<mapsto> ''ACGT'', ''OTU2'' \<mapsto> ''GGCC'']"
  by (simp add: get_rep_set_lookup_def strip_def is_space_def)

lemma example_report_run:
  "most_wanted_report decimal_float str_float_1 [''#0000ff'', ''#ff0000''] example_commands
     example_rep_set (\<lambda>fs. Inr example_table) example_fs ''out'' ''Env'' 2 2 (1 / 10) False =
   Inr \<lparr>dirs = {''out/img'', ''out''},
        files =
          [''out/most_wanted_otus.txt'' \<mapsto>
             tsv_header False @
             tsv_row 0 ''OTU2'' ''GGCC'' False ''k__Archaea'' ''AB2.1'' ''2.0'' @
             tsv_row 1 ''OTU1'' ''ACGT'' False ''k__Bacteria'' ''AB1.1'' ''5.0'',
           ''out/most_wanted_otus.fasta'' \<mapsto>
             fasta_record ''OTU2'' ''GGCC'' @ fasta_record ''OTU1'' ''ACGT'',
           ''out/most_wanted_otus.html'' \<mapsto>
             html_header @ ''<div>'' @
             html_dl_links ''most_wanted_otus.txt'' ''most_wanted_otus.fasta'' @ ''<br /><br />'' @
             (html_table_header ''Env'' False @
              html_row 0 ''OTU2'' ''GGCC'' False ''k__Archaea'' ''AB2.1'' ''2.0''
                ''img/abundance_by_Env_OTU2.png''
                (format_legend_html ([3 / 4, 1 / 4], [''water (75.00%)'', ''soil (25.00%)''],
                   [''#ff0000'', ''#0000ff''])) @
              html_row 1 ''OTU1'' ''ACGT'' False ''k__Bacteria'' ''AB1.1'' ''5.0''
                ''img/abundance_by_Env_OTU1.png''
                (format_legend_html ([3 / 4, 1 / 4], [''soil (75.00%)'', ''water (25.00%)''],
                   [''#0000ff'', ''#ff0000''])) @
              ''</table>'') @
             ''<br />'' @ html_dl_links ''most_wanted_otus.txt'' ''most_wanted_otus.fasta'' @
             ''</div>'' @ html_footer]\<rparr>"
proof -
  have p: "path_join ''out'' ''img'' = ''out/img''"
    "path_join ''out'' ''most_wanted_otus.txt'' = ''out/most_wanted_otus.txt''"
    "path_join ''out'' ''most_wanted_otus.fasta'' = ''out/most_wanted_otus.fasta''"
    "path_join ''out'' ''most_wanted_otus.html'' = ''out/most_wanted_otus.html''"
    by (simp_all add: path_join_def startswith_def)
  show ?thesis
    by (simp add: most_wanted_report_def example_commands_def example_rep_set_def example_fs_def
        example_selection example_lookup make_img_dir_def makedirs_def p report_example
        write_file_def Let_def)
qed

text \<open>C8, witness: the directory \<^verbatim>\<open>out\<close> exists. Without the force flag the run
  stops with the error; with it the run returns, and has created \<^verbatim>\<open>out/img\<close>.\<close>

theorem existing_output_dir_witness:
  "''out'' \<in> dirs example_fs \<and>
   generate_most_wanted_list decimal_float str_float_1 [''#0000ff'', ''#ff0000''] example_commands
     example_rep_set (\<lambda>fs. Inr example_table) example_fs ''out'' ''Env'' 2 2 (1 / 10) False False =
   Inl (WorkflowError
         (''Output directory '' @ [CHR 0x27] @ ''out'' @ [CHR 0x27] @
          '' already exists. Please choose a different directory, or force overwrite with -f.'')) \<and>
   isl (generate_most_wanted_list decimal_float str_float_1 [''#0000ff'', ''#ff0000''] example_commands
     example_rep_set (\<lambda>fs. Inr example_table) example_fs ''out'' ''Env'' 2 2 (1 / 10) False True) = False \<and>
   map_sum id dirs
     (generate_most_wanted_list decimal_float str_float_1 [''#0000ff'', ''#ff0000''] example_commands
        example_rep_set (\<lambda>fs. Inr example_table) example_fs ''out'' ''Env'' 2 2 (1 / 10) False True) =
   Inr {''out/img'', ''out''}"
proof -
  have d: "''out'' \<in> dirs example_fs" by (simp add: example_fs_def)
  from existing_output_dir [OF d, of decimal_float str_float_1 "[''#0000ff'', ''#ff0000'']"
      example_commands example_rep_set "\<lambda>fs. Inr example_table" "''Env''" 2 2 "1 / 10" False]
    d example_report_run
  show ?thesis by simp
qed

end
